theory Spec2Isabelle
  imports Complex_Main "HOL-Library.Multiset" "HOL-Library.Signed_Division"
begin

section \<open>pixpong: the game simulation and the lobby server\<close>

text \<open>
  A shallow embedding of \<^verbatim>\<open>internal/game\<close> (ball, paddle, game state) and of the
  session part of \<^verbatim>\<open>internal/server\<close>.

  Conventions.
  \<^item> Go's \<^verbatim>\<open>float64\<close> is modelled by \<open>real\<close>: arithmetic is exact, rounding, infinities
    and NaN are not represented. \<^verbatim>\<open>math.Sqrt\<close>, \<^verbatim>\<open>math.Cos\<close>, \<^verbatim>\<open>math.Sin\<close> and
    \<^verbatim>\<open>math.Pi\<close> are \<open>sqrt\<close>, \<open>cos\<close>, \<open>sin\<close> and \<open>pi\<close>.
  \<^item> Go's \<^verbatim>\<open>int\<close> is modelled by \<open>int\<close>; \<^verbatim>\<open>/\<close> and \<^verbatim>\<open>%\<close> on it truncate towards
    zero (\<open>sdiv\<close>, \<open>smod\<close>). Lengths and slice indices are \<open>nat\<close>.
  \<^item> A pointer to a paddle is the paddle's index in \<^verbatim>\<open>gs.Paddles\<close>; the ball and every
    paddle have a single owner, so the rest is plain state passing.
  \<^item> Every call of \<^verbatim>\<open>math/rand\<close> takes its outcome as an argument.
\<close>

subsection \<open>protocol: enumerations\<close>

datatype Team = TeamLeft | TeamRight

datatype Direction = DirNone | DirUp | DirDown

subsection \<open>game: the ball\<close>

record Ball =
  X :: real
  Y :: real
  VX :: real
  VY :: real

definition InitialBallSpeed :: real where
  "InitialBallSpeed = 0.25"

definition MaxBounceAngle :: real where
  "MaxBounceAngle = pi / 3"

definition NewBall :: "real \<Rightarrow> real \<Rightarrow> Ball" where
  "NewBall x y = \<lparr>X = x, Y = y, VX = 0, VY = 0\<rparr>"

definition Ball_Move :: "Ball \<Rightarrow> Ball" where
  "Ball_Move b = b\<lparr>X := X b + VX b, Ball.Y := Ball.Y b + VY b\<rparr>"

definition BounceVertical :: "Ball \<Rightarrow> Ball" where
  "BounceVertical b = b\<lparr>VY := - VY b\<rparr>"

text \<open>The hit position on the paddle, clamped into \<open>[-1, 1]\<close> by the two tests of
  \<^verbatim>\<open>BounceOffPaddle\<close>.\<close>

definition relativeHit :: "Ball \<Rightarrow> real \<Rightarrow> int \<Rightarrow> real" where
  "relativeHit b paddleY paddleHeight =
     (let h0 = (Ball.Y b - paddleY) / (real_of_int paddleHeight / 2);
          h1 = (if h0 < -1 then -1 else h0)
      in if h1 > 1 then 1 else h1)"

definition Speed :: "Ball \<Rightarrow> real" where
  "Speed b = sqrt (VX b * VX b + VY b * VY b)"

definition BounceOffPaddle :: "Ball \<Rightarrow> real \<Rightarrow> int \<Rightarrow> Ball" where
  "BounceOffPaddle b paddleY paddleHeight =
     (let bounceAngle = relativeHit b paddleY paddleHeight * MaxBounceAngle;
          speed = sqrt (VX b * VX b + VY b * VY b)
      in b\<lparr>VX := (if VX b > 0 then - speed * cos bounceAngle else speed * cos bounceAngle),
            VY := speed * sin bounceAngle\<rparr>)"

definition SpeedUp :: "Ball \<Rightarrow> real \<Rightarrow> Ball" where
  "SpeedUp b factor = b\<lparr>VX := VX b * factor, VY := VY b * factor\<rparr>"

text \<open>\<^verbatim>\<open>Reset\<close>; \<open>r\<close> is the outcome of \<^verbatim>\<open>rand.Float64()\<close>, a number in \<open>[0, 1)\<close>.\<close>

definition Ball_Reset :: "Ball \<Rightarrow> real \<Rightarrow> real \<Rightarrow> bool \<Rightarrow> real \<Rightarrow> Ball" where
  "Ball_Reset b centerX centerY launchRight r =
     (let angle = (r - 0.5) * pi / 3;
          speed = InitialBallSpeed
      in b\<lparr>X := centerX, Ball.Y := centerY,
            VX := (if launchRight then speed * cos angle else - speed * cos angle),
            VY := speed * sin angle\<rparr>)"

subsection \<open>game: the paddle\<close>

text \<open>
  The repository holds four variants of the paddle file. \<^verbatim>\<open>state.go\<close> is written against
  the smoothed one (\<^verbatim>\<open>TargetY\<close>, \<^verbatim>\<open>ProcessInput\<close>, \<^verbatim>\<open>Update\<close>). The record has the
  fields of all four; a variant's methods read and write only the fields of that variant.
\<close>

record Paddle =
  ID :: int
  Team :: Team
  Column :: int
  Y :: real
  TargetY :: real
  Height :: int
  Color :: int
  Direction :: Direction
  CourtHeight :: int
  MovementTicks :: int

definition NewPaddle :: "int \<Rightarrow> Team \<Rightarrow> int \<Rightarrow> int \<Rightarrow> Paddle" where
  "NewPaddle pid team column color =
     \<lparr>ID = pid, Team = team, Column = column, Y = 0, TargetY = 0, Height = 0, Color = color,
      Direction = DirNone, CourtHeight = 0, MovementTicks = 0\<rparr>"

definition ContainsY :: "Paddle \<Rightarrow> real \<Rightarrow> bool" where
  "ContainsY p y =
     (let halfHeight = real_of_int (Paddle.Height p) / 2
      in y \<ge> Paddle.Y p - halfHeight \<and> y \<le> Paddle.Y p + halfHeight)"

paragraph \<open>Smoothed movement: the target moves on input, the paddle follows on every tick.\<close>

definition PaddleTargetStep :: real where
  "PaddleTargetStep = 2.5"

definition PaddleSmoothSpeed :: real where
  "PaddleSmoothSpeed = 0.4"

definition Paddle_ProcessInput :: "Paddle \<Rightarrow> Direction \<Rightarrow> Paddle" where
  "Paddle_ProcessInput p dir =
     (let halfHeight = real_of_int (Paddle.Height p) / 2;
          minY = halfHeight;
          maxY = real_of_int (CourtHeight p) - halfHeight
      in case dir of
           DirUp \<Rightarrow>
             (let t = TargetY p - PaddleTargetStep
              in p\<lparr>TargetY := (if t < minY then minY else t)\<rparr>)
         | DirDown \<Rightarrow>
             (let t = TargetY p + PaddleTargetStep
              in p\<lparr>TargetY := (if t > maxY then maxY else t)\<rparr>)
         | DirNone \<Rightarrow> p)"

definition Paddle_Update :: "Paddle \<Rightarrow> Paddle" where
  "Paddle_Update p =
     (let diff = TargetY p - Paddle.Y p;
          y0 = Paddle.Y p + diff * PaddleSmoothSpeed;
          halfHeight = real_of_int (Paddle.Height p) / 2;
          y1 = (if y0 < halfHeight then halfHeight else y0);
          maxY = real_of_int (CourtHeight p) - halfHeight
      in p\<lparr>Paddle.Y := (if y1 > maxY then maxY else y1)\<rparr>)"

paragraph \<open>Instant step per input.\<close>

definition PaddleMoveAmount :: real where
  "PaddleMoveAmount = 1.5"

definition MoveUp :: "Paddle \<Rightarrow> Paddle" where
  "MoveUp p =
     (let halfHeight = real_of_int (Paddle.Height p) / 2;
          y = Paddle.Y p - PaddleMoveAmount
      in p\<lparr>Paddle.Y := (if y < halfHeight then halfHeight else y)\<rparr>)"

definition MoveDown :: "Paddle \<Rightarrow> Paddle" where
  "MoveDown p =
     (let halfHeight = real_of_int (Paddle.Height p) / 2;
          maxY = real_of_int (CourtHeight p) - halfHeight;
          y = Paddle.Y p + PaddleMoveAmount
      in p\<lparr>Paddle.Y := (if y > maxY then maxY else y)\<rparr>)"

definition Paddle_ProcessInput_step :: "Paddle \<Rightarrow> Direction \<Rightarrow> Paddle" where
  "Paddle_ProcessInput_step p dir =
     (case dir of DirUp \<Rightarrow> MoveUp p | DirDown \<Rightarrow> MoveDown p | DirNone \<Rightarrow> p)"

paragraph \<open>Direction-driven movement, in its two versions.\<close>

definition SetDirection :: "Paddle \<Rightarrow> Direction \<Rightarrow> Paddle" where
  "SetDirection p dir =
     (let p1 = p\<lparr>Direction := dir\<rparr>
      in if dir \<noteq> DirNone then p1\<lparr>MovementTicks := 8\<rparr> else p1)"

text \<open>\<open>step_by speed p\<close> is the \<^verbatim>\<open>switch p.Direction\<close> shared by both versions of
  \<^verbatim>\<open>Move\<close>, which differ in \<^verbatim>\<open>PaddleSpeed\<close> and in what follows the switch.\<close>

definition step_by :: "real \<Rightarrow> Paddle \<Rightarrow> Paddle" where
  "step_by speed p =
     (let halfHeight = real_of_int (Paddle.Height p) / 2
      in case Direction p of
           DirUp \<Rightarrow>
             (let y = Paddle.Y p - speed
              in p\<lparr>Paddle.Y := (if y < halfHeight then halfHeight else y)\<rparr>)
         | DirDown \<Rightarrow>
             (let y = Paddle.Y p + speed;
                  maxY = real_of_int (CourtHeight p) - halfHeight
              in p\<lparr>Paddle.Y := (if y > maxY then maxY else y)\<rparr>)
         | DirNone \<Rightarrow> p)"

text \<open>\<^verbatim>\<open>internal/game/paddle.go\<close>: \<^verbatim>\<open>PaddleSpeed = 1.2\<close>, the direction expires with
  \<^verbatim>\<open>MovementTicks\<close>.\<close>

definition Paddle_Move :: "Paddle \<Rightarrow> Paddle" where
  "Paddle_Move p =
     (let p1 = step_by 1.2 p
      in if MovementTicks p1 > 0
         then (let p2 = p1\<lparr>MovementTicks := MovementTicks p1 - 1\<rparr>
               in if MovementTicks p2 = 0 then p2\<lparr>Direction := DirNone\<rparr> else p2)
         else p1)"

text \<open>The older version: \<^verbatim>\<open>PaddleSpeed = 0.8\<close>, the direction is reset after each move.\<close>

definition Paddle_Move_reset :: "Paddle \<Rightarrow> Paddle" where
  "Paddle_Move_reset p = (step_by 0.8 p)\<lparr>Direction := DirNone\<rparr>"

subsection \<open>game: the game state\<close>

definition TickRate :: int where
  "TickRate = 60"

definition BaseSpeedCap :: real where
  "BaseSpeedCap = 1.5"

definition SpeedCapPerPlayer :: real where
  "SpeedCapPerPlayer = 0.3"

definition SpeedIncrement :: real where
  "SpeedIncrement = 1.05"

definition BasePaddleHeight :: int where
  "BasePaddleHeight = 5"

definition MinPaddleHeight :: int where
  "MinPaddleHeight = 3"

definition PaddleHeightPerPlayer :: int where
  "PaddleHeightPerPlayer = 1"

record PlayerInfo =
  ID :: int
  Name :: string

record GameState =
  Width :: int
  Height :: int
  Ball :: Ball
  Paddles :: "Paddle list"
  Players :: "PlayerInfo list"
  LeftScore :: int
  RightScore :: int
  PointsToWin :: int
  Tick :: int
  Paused :: bool
  PauseTicksLeft :: int
  LastScorer :: Team
  WaitingForServe :: bool
  ServingTeam :: Team

definition NewGameState :: "int \<Rightarrow> int \<Rightarrow> int \<Rightarrow> GameState" where
  "NewGameState width height pointsToWin =
     \<lparr>Width = width, Height = height,
      Ball = NewBall (real_of_int width / 2) (real_of_int height / 2),
      Paddles = [], Players = [],
      LeftScore = 0, RightScore = 0, PointsToWin = pointsToWin, Tick = 0,
      Paused = False, PauseTicksLeft = 0, LastScorer = TeamLeft,
      WaitingForServe = False, ServingTeam = TeamLeft\<rparr>"

definition AddPlayer :: "GameState \<Rightarrow> int \<Rightarrow> string \<Rightarrow> GameState" where
  "AddPlayer gs pid name =
     (let color = (pid - 1) smod 8;
          paddle = NewPaddle pid TeamLeft 0 color
      in gs\<lparr>Paddles := Paddles gs @ [paddle],
             Players := Players gs @ [\<lparr>ID = pid, Name = name\<rparr>]\<rparr>)"

text \<open>\<^verbatim>\<open>GetPaddle\<close> returns a pointer to the first paddle with the given ID: here its
  index, \<open>None\<close> for \<^verbatim>\<open>nil\<close>.\<close>

fun find_paddle :: "Paddle list \<Rightarrow> int \<Rightarrow> nat option" where
  "find_paddle [] pid = None"
| "find_paddle (p # ps) pid =
     (if Paddle.ID p = pid then Some 0 else map_option Suc (find_paddle ps pid))"

definition GetPaddle :: "GameState \<Rightarrow> int \<Rightarrow> nat option" where
  "GetPaddle gs pid = find_paddle (Paddles gs) pid"

definition CalculatePaddleHeight :: "int \<Rightarrow> int" where
  "CalculatePaddleHeight playersPerSide =
     (let height = BasePaddleHeight - (playersPerSide - 1) * PaddleHeightPerPlayer
      in if height < MinPaddleHeight then MinPaddleHeight else height)"

definition GetSpeedCap :: "int \<Rightarrow> real" where
  "GetSpeedCap playersPerSide =
     BaseSpeedCap + real_of_int (playersPerSide - 1) * SpeedCapPerPlayer"

fun count_team :: "Paddle list \<Rightarrow> Team \<Rightarrow> int" where
  "count_team [] team = 0"
| "count_team (p # ps) team = (if Team p = team then 1 else 0) + count_team ps team"

definition countPlayersOnSide :: "GameState \<Rightarrow> Team \<Rightarrow> int" where
  "countPlayersOnSide gs team = count_team (Paddles gs) team"

paragraph \<open>Team assignment\<close>

text \<open>
  \<^verbatim>\<open>rand.Shuffle(n, swap)\<close> of Go's standard library runs \<open>i\<close> from \<open>n - 1\<close> down to
  \<open>1\<close> and calls \<open>swap(i, j)\<close> with \<open>j = Intn(i + 1)\<close>. \<open>rnd i\<close> is the number drawn
  in round \<open>i\<close>, reduced into \<open>[0, i]\<close>; \<open>swap\<close> is the closure of \<^verbatim>\<open>AssignTeams\<close>.
\<close>

definition swap :: "nat \<Rightarrow> nat \<Rightarrow> 'a list \<Rightarrow> 'a list" where
  "swap i j xs = xs[i := xs ! j, j := xs ! i]"

fun shuffle_from :: "(nat \<Rightarrow> nat) \<Rightarrow> nat \<Rightarrow> 'a list \<Rightarrow> 'a list" where
  "shuffle_from rnd 0 xs = xs"
| "shuffle_from rnd (Suc i) xs =
     shuffle_from rnd i (swap (Suc i) (rnd (Suc i) mod (Suc i + 1)) xs)"

definition Shuffle :: "(nat \<Rightarrow> nat) \<Rightarrow> 'a list \<Rightarrow> 'a list" where
  "Shuffle rnd xs = shuffle_from rnd (length xs - 1) xs"

text \<open>The loop of \<^verbatim>\<open>assignTeamPaddles\<close>: \<open>i\<close> is the position in the team's slice, the
  slice holds pointers (indices) into the paddle list \<open>ps\<close>.\<close>

fun assign_loop ::
  "Team \<Rightarrow> int \<Rightarrow> int \<Rightarrow> int \<Rightarrow> int \<Rightarrow> nat \<Rightarrow> nat list \<Rightarrow> Paddle list \<Rightarrow> Paddle list" where
  "assign_loop team height courtHeight columnStart columnSpacing i [] ps = ps"
| "assign_loop team height courtHeight columnStart columnSpacing i (k # ks) ps =
     (let centerY = real_of_int courtHeight / 2;
          p = (ps ! k)\<lparr>Team := team,
                Column := columnStart + (int i + 1) * columnSpacing,
                Paddle.Y := centerY, TargetY := centerY,
                Paddle.Height := height, CourtHeight := courtHeight\<rparr>
      in assign_loop team height courtHeight columnStart columnSpacing (Suc i) ks (ps[k := p]))"

definition assignTeamPaddles :: "GameState \<Rightarrow> nat list \<Rightarrow> Team \<Rightarrow> int \<Rightarrow> GameState" where
  "assignTeamPaddles gs paddles team height =
     (let count = int (length paddles)
      in if count = 0 then gs
         else
           (let columnStart = (if team = TeamLeft then 1 else (Width gs * 3) sdiv 4);
                columnEnd = (if team = TeamLeft then Width gs sdiv 4 else Width gs - 1);
                columnRange = columnEnd - columnStart;
                spacing = columnRange sdiv (count + 1);
                columnSpacing = (if spacing < 1 then 1 else spacing)
            in gs\<lparr>Paddles :=
                 assign_loop team height (GameState.Height gs) columnStart columnSpacing 0
                   paddles (Paddles gs)\<rparr>))"

text \<open>\<^verbatim>\<open>AssignTeams\<close>; \<open>rnd\<close> feeds the shuffle, \<open>coin\<close> is the outcome of
  \<^verbatim>\<open>rand.Intn(2)\<close> and \<open>r\<close> that of \<^verbatim>\<open>rand.Float64()\<close> inside \<^verbatim>\<open>Reset\<close>.\<close>

definition AssignTeams :: "GameState \<Rightarrow> (nat \<Rightarrow> nat) \<Rightarrow> nat \<Rightarrow> real \<Rightarrow> GameState" where
  "AssignTeams gs rnd coin r =
     (if length (Paddles gs) = 0 then gs
      else
        (let shuffled = Shuffle rnd [0..<length (Paddles gs)];
             halfCount = length shuffled div 2;
             leftTeam = take halfCount shuffled;
             rightTeam = drop halfCount shuffled;
             leftPaddleHeight = CalculatePaddleHeight (int (length leftTeam));
             rightPaddleHeight = CalculatePaddleHeight (int (length rightTeam));
             gs1 = assignTeamPaddles gs leftTeam TeamLeft leftPaddleHeight;
             gs2 = assignTeamPaddles gs1 rightTeam TeamRight rightPaddleHeight;
             launchRight = (coin mod 2 = 0)
         in gs2\<lparr>Ball :=
              Ball_Reset (Ball gs2) (real_of_int (Width gs2) / 2)
                (real_of_int (GameState.Height gs2) / 2) launchRight r\<rparr>))"

paragraph \<open>Input, tick, scoring, serve\<close>

definition ProcessInput :: "GameState \<Rightarrow> int \<Rightarrow> Direction \<Rightarrow> GameState" where
  "ProcessInput gs playerID dir =
     (case GetPaddle gs playerID of
        None \<Rightarrow> gs
      | Some k \<Rightarrow> gs\<lparr>Paddles := (Paddles gs)[k := Paddle_ProcessInput (Paddles gs ! k) dir]\<rparr>)"

text \<open>\<^verbatim>\<open>int(x)\<close> on a \<^verbatim>\<open>float64\<close> drops the fraction.\<close>

definition float_to_int :: "real \<Rightarrow> int" where
  "float_to_int x = (if 0 \<le> x then \<lfloor>x\<rfloor> else \<lceil>x\<rceil>)"

text \<open>The body of the collision loop once a paddle is hit: bounce, speed up, cap.\<close>

definition hit_paddle :: "GameState \<Rightarrow> Paddle \<Rightarrow> Ball" where
  "hit_paddle gs p =
     (let b1 = BounceOffPaddle (Ball gs) (Paddle.Y p) (Paddle.Height p);
          b2 = SpeedUp b1 SpeedIncrement;
          playersPerSide = countPlayersOnSide gs (Team p);
          speedCap = GetSpeedCap playersPerSide
      in if Speed b2 > speedCap
         then (let scale = speedCap / Speed b2
               in b2\<lparr>VX := VX b2 * scale, VY := VY b2 * scale\<rparr>)
         else b2)"

text \<open>The loop of \<^verbatim>\<open>checkPaddleCollisions\<close> over the remaining paddles; the ball changes
  only at the first hit, where the loop breaks.\<close>

fun collide :: "GameState \<Rightarrow> Paddle list \<Rightarrow> Ball" where
  "collide gs [] = Ball gs"
| "collide gs (p # ps) =
     (let ballCol = float_to_int (X (Ball gs))
      in if ballCol \<noteq> Column p then collide gs ps
         else if \<not> ContainsY p (Ball.Y (Ball gs)) then collide gs ps
         else if Team p = TeamLeft \<and> VX (Ball gs) > 0 then collide gs ps
         else if Team p = TeamRight \<and> VX (Ball gs) < 0 then collide gs ps
         else hit_paddle gs p)"

definition checkPaddleCollisions :: "GameState \<Rightarrow> GameState" where
  "checkPaddleCollisions gs = gs\<lparr>Ball := collide gs (Paddles gs)\<rparr>"

definition startPause :: "GameState \<Rightarrow> GameState" where
  "startPause gs = gs\<lparr>Paused := True, PauseTicksLeft := TickRate\<rparr>"

definition CheckScore :: "GameState \<Rightarrow> GameState" where
  "CheckScore gs =
     (let gs1 = (if X (Ball gs) < 0
                 then startPause (gs\<lparr>RightScore := RightScore gs + 1, LastScorer := TeamRight\<rparr>)
                 else gs)
      in if X (Ball gs1) > real_of_int (Width gs1)
         then startPause (gs1\<lparr>LeftScore := LeftScore gs1 + 1, LastScorer := TeamLeft\<rparr>)
         else gs1)"

text \<open>The wall test of \<^verbatim>\<open>Update\<close>, on the ball after its move.\<close>

definition wall_bounce :: "GameState \<Rightarrow> GameState" where
  "wall_bounce gs =
     (let b = Ball gs; h = real_of_int (GameState.Height gs)
      in if Ball.Y b \<le> 0 \<or> Ball.Y b \<ge> h
         then (let b1 = BounceVertical b;
                   b2 = (if Ball.Y b1 < 0 then b1\<lparr>Ball.Y := 0\<rparr> else b1);
                   b3 = (if Ball.Y b2 > h then b2\<lparr>Ball.Y := h\<rparr> else b2)
               in gs\<lparr>Ball := b3\<rparr>)
         else gs)"

definition Update :: "GameState \<Rightarrow> GameState" where
  "Update gs0 =
     (let gs = gs0\<lparr>Tick := Tick gs0 + 1\<rparr>
      in if Paused gs
         then (let gs1 = gs\<lparr>PauseTicksLeft := PauseTicksLeft gs - 1\<rparr>
               in if PauseTicksLeft gs1 \<le> 0
                  then gs1\<lparr>Paused := False, PauseTicksLeft := 0,
                           WaitingForServe := True, ServingTeam := LastScorer gs1,
                           Ball := (Ball gs1)\<lparr>X := real_of_int (Width gs1) / 2,
                                     Ball.Y := real_of_int (GameState.Height gs1) / 2,
                                     VX := 0, VY := 0\<rparr>\<rparr>
                  else gs1)
         else (let gs1 = gs\<lparr>Paddles := map Paddle_Update (Paddles gs)\<rparr>
               in if WaitingForServe gs1 then gs1
                  else CheckScore (checkPaddleCollisions
                         (wall_bounce (gs1\<lparr>Ball := Ball_Move (Ball gs1)\<rparr>)))))"

text \<open>\<^verbatim>\<open>Serve\<close> returns its result together with the state it leaves; \<open>r\<close> is the
  outcome of \<^verbatim>\<open>rand.Float64()\<close> inside \<^verbatim>\<open>Reset\<close>.\<close>

definition Serve :: "GameState \<Rightarrow> int \<Rightarrow> real \<Rightarrow> bool \<times> GameState" where
  "Serve gs playerID r =
     (if \<not> WaitingForServe gs then (False, gs)
      else case GetPaddle gs playerID of
             None \<Rightarrow> (False, gs)
           | Some k \<Rightarrow>
               if Team (Paddles gs ! k) \<noteq> ServingTeam gs then (False, gs)
               else
                 (let launchRight = (ServingTeam gs = TeamLeft)
                  in (True,
                      gs\<lparr>Ball := Ball_Reset (Ball gs) (real_of_int (Width gs) / 2)
                                  (real_of_int (GameState.Height gs) / 2) launchRight r,
                         WaitingForServe := False\<rparr>)))"

definition IsGameOver :: "GameState \<Rightarrow> bool" where
  "IsGameOver gs \<longleftrightarrow> LeftScore gs \<ge> PointsToWin gs \<or> RightScore gs \<ge> PointsToWin gs"

definition GetWinner :: "GameState \<Rightarrow> Team" where
  "GetWinner gs = (if LeftScore gs \<ge> PointsToWin gs then TeamLeft else TeamRight)"

subsection \<open>protocol: the payloads of the lobby\<close>

record JoinRequest =
  PlayerName :: string
  TerminalWidth :: int
  TerminalHeight :: int

record JoinResponse =
  PlayerID :: string
  Accepted :: bool
  Reason :: string

record LobbyPlayer =
  ID :: string
  Name :: string
  Color :: int

record LobbyState =
  Players :: "LobbyPlayer list"
  IsHost :: bool
  CanStart :: bool
  ServerAddrs :: "string list"
  PointsToWin :: int

text \<open>\<^verbatim>\<open>fmt.Sprintf("%d", i)\<close>: the decimal digits of an integer.\<close>

fun nat_digits :: "nat \<Rightarrow> string" where
  "nat_digits n =
     (if n < 10 then [''0123456789'' ! n]
      else nat_digits (n div 10) @ [''0123456789'' ! (n mod 10)])"

definition Sprintf_d :: "int \<Rightarrow> string" where
  "Sprintf_d i = (if i < 0 then CHR ''-'' # nat_digits (nat (- i)) else nat_digits (nat i))"

subsection \<open>server: clients, admission, match start, lobby broadcast\<close>

definition MinTermWidth :: int where
  "MinTermWidth = 40"

definition MinTermHeight :: int where
  "MinTermHeight = 20"

record Client =
  ID :: int
  Name :: string
  Width :: int
  Height :: int
  PlayerID :: int

text \<open>The server's state without its sockets and locks; \<open>cfgPointsToWin\<close> is
  \<^verbatim>\<open>s.cfg.PointsToWin\<close>, \<open>None\<close> in \<open>gameState\<close> is \<^verbatim>\<open>nil\<close>.\<close>

record Server =
  cfgPointsToWin :: int
  clients :: "int \<rightharpoonup> Client"
  nextID :: int
  gameState :: "GameState option"
  inLobby :: bool
  inRematch :: bool
  rematchReady :: "int \<rightharpoonup> bool"
  minWidth :: int
  minHeight :: int

definition NewServer :: "int \<Rightarrow> Server" where
  "NewServer pointsToWin =
     \<lparr>cfgPointsToWin = pointsToWin, clients = Map.empty, nextID = 1, gameState = None,
      inLobby = True, inRematch = False, rematchReady = Map.empty,
      minWidth = MinTermWidth, minHeight = MinTermHeight\<rparr>"

text \<open>
  \<^verbatim>\<open>handleConnection\<close> up to the point where the client is registered, for a connection
  whose first message decodes to the join request \<open>req\<close> and whose reply is written
  without error. The result is the reply and the server's state.
\<close>

definition handleConnection :: "Server \<Rightarrow> JoinRequest \<Rightarrow> JoinResponse \<times> Server" where
  "handleConnection s req =
     (if \<not> inLobby s \<and> \<not> inRematch s
      then (\<lparr>JoinResponse.PlayerID = [], Accepted = False, Reason = ''Game in progress''\<rparr>, s)
      else
        (let clientID = nextID s;
             s1 = s\<lparr>nextID := nextID s + 1\<rparr>
         in if TerminalWidth req < MinTermWidth \<or> TerminalHeight req < MinTermHeight
            then (\<lparr>JoinResponse.PlayerID = [], Accepted = False,
                   Reason = ''Terminal too small. Minimum: '' @ Sprintf_d MinTermWidth
                              @ ''x'' @ Sprintf_d MinTermHeight\<rparr>, s1)
            else
              (let client = \<lparr>Client.ID = clientID,
                             Client.Name = (if PlayerName req = [] then ''Player'' @ Sprintf_d clientID
                                            else PlayerName req),
                             Client.Width = TerminalWidth req,
                             Client.Height = TerminalHeight req,
                             Client.PlayerID = clientID\<rparr>;
                   s2 = s1\<lparr>clients := (clients s1)(clientID \<mapsto> client)\<rparr>;
                   s3 = (if Client.Width client < minWidth s2
                         then s2\<lparr>minWidth := Client.Width client\<rparr> else s2);
                   s4 = (if Client.Height client < minHeight s3
                         then s3\<lparr>minHeight := Client.Height client\<rparr> else s3)
               in (\<lparr>JoinResponse.PlayerID = Sprintf_d clientID, Accepted = True, Reason = []\<rparr>, s4))))"

text \<open>
  Go visits the entries of a map in an order that the language leaves open and that the
  runtime varies from one \<^verbatim>\<open>range\<close> loop to the next. Each loop over \<^verbatim>\<open>s.clients\<close>
  therefore takes the order of the keys it visits as an argument; \<open>iteration_order\<close> says
  that such a list names every key of the map once.
\<close>

definition range_clients :: "Server \<Rightarrow> int list \<Rightarrow> (int \<times> Client) list" where
  "range_clients s order =
     List.map_filter (\<lambda>k. case clients s k of None \<Rightarrow> None | Some c \<Rightarrow> Some (k, c)) order"

definition iteration_order :: "Server \<Rightarrow> int list \<Rightarrow> bool" where
  "iteration_order s order \<longleftrightarrow> distinct order \<and> set order = dom (clients s)"

text \<open>The first loop of \<^verbatim>\<open>StartGame\<close>: the running minimum \<open>(minWidth, minHeight)\<close>.\<close>

fun min_size_loop :: "(int \<times> Client) list \<Rightarrow> int \<times> int \<Rightarrow> int \<times> int" where
  "min_size_loop [] (w, h) = (w, h)"
| "min_size_loop ((k, client) # cs) (w, h) =
     min_size_loop cs
       (if Client.Width client < w then Client.Width client else w,
        if Client.Height client < h then Client.Height client else h)"

fun add_players :: "(int \<times> Client) list \<Rightarrow> GameState \<Rightarrow> GameState" where
  "add_players [] gs = gs"
| "add_players ((k, client) # cs) gs =
     add_players cs (AddPlayer gs (Client.ID client) (Client.Name client))"

definition StartGame ::
  "Server \<Rightarrow> int list \<Rightarrow> int list \<Rightarrow> (nat \<Rightarrow> nat) \<Rightarrow> nat \<Rightarrow> real \<Rightarrow> Server" where
  "StartGame s order1 order2 rnd coin r =
     (if card (dom (clients s)) < 2 then s
      else
        (let (w, h) = min_size_loop (range_clients s order1) (MinTermWidth, MinTermHeight);
             s1 = s\<lparr>minWidth := w, minHeight := h\<rparr>;
             gs0 = NewGameState (minWidth s1) (minHeight s1) (cfgPointsToWin s1);
             gs1 = add_players (range_clients s1 order2) gs0;
             gs2 = AssignTeams gs1 rnd coin r
         in s1\<lparr>gameState := Some gs2, inLobby := False, inRematch := False\<rparr>))"

text \<open>
  \<^verbatim>\<open>BroadcastLobbyState\<close>: the list of \<open>(key, payload)\<close> pairs handed to
  \<^verbatim>\<open>client.Send\<close>, in the order sent. \<open>addresses\<close> is what \<^verbatim>\<open>GetServerAddresses\<close>
  reads from the host's network interfaces; a \<^verbatim>\<open>nil\<close> slice is the empty list.
\<close>

definition lobby_player :: "Client \<Rightarrow> LobbyPlayer" where
  "lobby_player client =
     \<lparr>LobbyPlayer.ID = Sprintf_d (Client.ID client), LobbyPlayer.Name = Client.Name client,
      Color = (Client.ID client - 1) smod 8\<rparr>"

definition BroadcastLobbyState ::
  "Server \<Rightarrow> int list \<Rightarrow> int list \<Rightarrow> string list \<Rightarrow> (int \<times> LobbyState) list" where
  "BroadcastLobbyState s order1 order2 addresses =
     (let players = map (\<lambda>(k, client). lobby_player client) (range_clients s order1);
          canStart = (card (dom (clients s)) \<ge> 2)
      in map (\<lambda>(k, client).
                (let isHost = (Client.ID client = 1);
                     msg = \<lparr>LobbyState.Players = players, IsHost = isHost,
                            CanStart = canStart, ServerAddrs = [],
                            LobbyState.PointsToWin = cfgPointsToWin s\<rparr>
                 in (k, if isHost then msg\<lparr>ServerAddrs := addresses\<rparr> else msg)))
           (range_clients s order2))"

text \<open>The payload a broadcast hands to the client stored under key \<open>k\<close>.\<close>

definition payload_for :: "(int \<times> LobbyState) list \<Rightarrow> int \<Rightarrow> LobbyState option" where
  "payload_for sent k = map_of sent k"

subsection \<open>Runs of a match and the predicates of the properties\<close>

text \<open>The operations that act on a running match, with the random outcome a serve uses.\<close>

datatype Op = OpUpdate | OpProcessInput int Direction | OpServe int real

fun apply_op :: "GameState \<Rightarrow> Op \<Rightarrow> GameState" where
  "apply_op gs OpUpdate = Update gs"
| "apply_op gs (OpProcessInput playerID dir) = ProcessInput gs playerID dir"
| "apply_op gs (OpServe playerID r) = snd (Serve gs playerID r)"

fun run :: "GameState \<Rightarrow> Op list \<Rightarrow> GameState" where
  "run gs [] = gs"
| "run gs (x # xs) = run (apply_op gs x) xs"

text \<open>The player count of the larger team.\<close>

definition larger_team :: "GameState \<Rightarrow> int" where
  "larger_team gs = max (countPlayersOnSide gs TeamLeft) (countPlayersOnSide gs TeamRight)"

text \<open>The paddle invariant: the centre lies in \<open>[height/2, courtHeight - height/2]\<close>.\<close>

definition in_bounds :: "Paddle \<Rightarrow> bool" where
  "in_bounds p \<longleftrightarrow>
     real_of_int (Paddle.Height p) / 2 \<le> Paddle.Y p \<and>
     Paddle.Y p \<le> real_of_int (CourtHeight p) - real_of_int (Paddle.Height p) / 2"

text \<open>\<open>Serve\<close> is honoured for \<open>playerID\<close>: the state waits for a serve and the player's
  paddle is on the serving team.\<close>

definition may_serve :: "GameState \<Rightarrow> int \<Rightarrow> bool" where
  "may_serve gs playerID \<longleftrightarrow>
     WaitingForServe gs \<and>
     (case GetPaddle gs playerID of
        None \<Rightarrow> False
      | Some k \<Rightarrow> Team (Paddles gs ! k) = ServingTeam gs)"

subsection \<open>Example states\<close>

text \<open>Two players on an 80 by 24 court, as the repository's tests set a match up; the
  shuffle draws leave the order as it is, the ball is launched to the right at angle 0.\<close>

definition example_lobby :: GameState where
  "example_lobby = AddPlayer (AddPlayer (NewGameState 80 24 10) 1 ''P1'') 2 ''P2''"

definition example_match :: GameState where
  "example_match = AssignTeams example_lobby (\<lambda>i. i) 0 0.5"

text \<open>The same match after a point of the left team and the pause that follows it.\<close>

definition example_waiting :: GameState where
  "example_waiting = example_match\<lparr>WaitingForServe := True, ServingTeam := TeamLeft\<rparr>"

text \<open>A ball that has crossed the left goal line of the example court.\<close>

definition example_goal :: GameState where
  "example_goal = example_match\<lparr>Ball := (NewBall (- 0.5) 12)\<lparr>VX := - 0.5\<rparr>\<rparr>"

text \<open>The ball and the paddle of the repository's edge-hit test: the ball at height 10 meets
  a paddle of height 6 centred at 7.\<close>

definition example_ball :: Ball where
  "example_ball = (NewBall 5 10)\<lparr>VX := 0.5, VY := 0\<rparr>"

text \<open>A paddle of height 5 one step below the top of a court of height 24, moving up.\<close>

definition example_paddle :: Paddle where
  "example_paddle =
     (NewPaddle 1 TeamLeft 10 0)\<lparr>Paddle.Y := 3, TargetY := 2.5, Paddle.Height := 5,
        Direction := DirUp, CourtHeight := 24, MovementTicks := 8\<rparr>"

text \<open>The predicates of the server's properties: every registered client advertises at
  least the minimum terminal, and two lobby payloads agree up to the order of their player
  lists.\<close>

definition admitted :: "Server \<Rightarrow> bool" where
  "admitted s \<longleftrightarrow>
     (\<forall>k c. clients s k = Some c \<longrightarrow> MinTermWidth \<le> Client.Width c \<and> MinTermHeight \<le> Client.Height c)"

definition same_up_to_order :: "LobbyState \<Rightarrow> LobbyState \<Rightarrow> bool" where
  "same_up_to_order p q \<longleftrightarrow>
     mset (LobbyState.Players p) = mset (LobbyState.Players q) \<and>
     IsHost p = IsHost q \<and> CanStart p = CanStart q \<and> ServerAddrs p = ServerAddrs q \<and>
     LobbyState.PointsToWin p = LobbyState.PointsToWin q"

text \<open>A server with two players, each joined from a terminal of 80 by 24, and the address
  list of its host.\<close>

definition example_request :: "string \<Rightarrow> JoinRequest" where
  "example_request name = \<lparr>PlayerName = name, TerminalWidth = 80, TerminalHeight = 24\<rparr>"

definition example_client :: "int \<Rightarrow> string \<Rightarrow> Client" where
  "example_client k name =
     \<lparr>Client.ID = k, Client.Name = name, Client.Width = 80, Client.Height = 24,
      Client.PlayerID = k\<rparr>"

definition example_server :: Server where
  "example_server =
     snd (handleConnection (snd (handleConnection (NewServer 10) (example_request ''Ann'')))
            (example_request ''Bob''))"

definition example_addresses :: "string list" where
  "example_addresses = [''192.168.1.5:5555'']"

section \<open>Properties\<close>

subsection \<open>The example states, evaluated\<close>

lemma example_lobby_paddles:
  "Paddles example_lobby = [NewPaddle 1 TeamLeft 0 0, NewPaddle 2 TeamLeft 0 1]"
  by (simp add: example_lobby_def AddPlayer_def NewGameState_def Let_def
      signed_modulo_int_def signed_divide_int_def)

lemma example_lobby_size:
  "GameState.Width example_lobby = 80" "GameState.Height example_lobby = 24"
  by (simp_all add: example_lobby_def AddPlayer_def NewGameState_def Let_def)

lemma shuffle_id2: "Shuffle (\<lambda>i. i) [0, Suc 0] = [0, Suc 0]"
  by (simp add: Shuffle_def swap_def)

lemma upt2: "[0..<Suc (Suc 0)] = [0, Suc 0]"
  by (simp add: upt_rec)

lemma sdiv_vals: "(80::int) sdiv 4 = 20" "(80 * 3 :: int) sdiv 4 = 60" "(19::int) sdiv 2 = 9"
  by (simp_all add: signed_divide_int_def)

lemma example_left:
  "Paddles (assignTeamPaddles example_lobby [0] TeamLeft 5) =
     [(NewPaddle 1 TeamLeft 10 0)\<lparr>Paddle.Y := 12, TargetY := 12, Paddle.Height := 5, CourtHeight := 24\<rparr>,
      NewPaddle 2 TeamLeft 0 1]"
  by (simp add: assignTeamPaddles_def Let_def example_lobby_paddles example_lobby_size sdiv_vals NewPaddle_def)


lemma example_left_size:
  "GameState.Width (assignTeamPaddles example_lobby [0] TeamLeft 5) = 80"
  "GameState.Height (assignTeamPaddles example_lobby [0] TeamLeft 5) = 24"
  by (simp_all add: assignTeamPaddles_def Let_def example_lobby_size)

lemma example_right:
  "Paddles (assignTeamPaddles (assignTeamPaddles example_lobby [0] TeamLeft 5) [Suc 0] TeamRight 5) =
     [(NewPaddle 1 TeamLeft 10 0)\<lparr>Paddle.Y := 12, TargetY := 12, Paddle.Height := 5, CourtHeight := 24\<rparr>,
      (NewPaddle 2 TeamRight 69 1)\<lparr>Paddle.Y := 12, TargetY := 12, Paddle.Height := 5, CourtHeight := 24\<rparr>]"
  by (simp add: assignTeamPaddles_def [of "assignTeamPaddles example_lobby [0] TeamLeft 5"]
      Let_def example_left example_left_size sdiv_vals NewPaddle_def)

lemma CalculatePaddleHeight_1: "CalculatePaddleHeight 1 = 5"
  by (simp add: CalculatePaddleHeight_def BasePaddleHeight_def MinPaddleHeight_def PaddleHeightPerPlayer_def)

lemma example_match_paddles:
  "Paddles example_match =
     [(NewPaddle 1 TeamLeft 10 0)\<lparr>Paddle.Y := 12, TargetY := 12, Paddle.Height := 5, CourtHeight := 24\<rparr>,
      (NewPaddle 2 TeamRight 69 1)\<lparr>Paddle.Y := 12, TargetY := 12, Paddle.Height := 5, CourtHeight := 24\<rparr>]"
  by (simp add: example_match_def AssignTeams_def Let_def example_lobby_paddles upt2 shuffle_id2
      CalculatePaddleHeight_1 example_right)

subsection \<open>Ball kinematics\<close>

lemma polar_norm:
  fixes s a :: real
  assumes "0 \<le> s"
  shows "sqrt ((s * cos a) * (s * cos a) + (s * sin a) * (s * sin a)) = s"
proof -
  have "(s * cos a) * (s * cos a) + (s * sin a) * (s * sin a)
          = (s * s) * (cos a * cos a + sin a * sin a)"
    by (simp only: distrib_left mult.assoc mult.left_commute)
  also have "\<dots> = s * s"
    by (simp only: sin_cos_squared_add3 mult_1_right)
  finally have "sqrt ((s * cos a) * (s * cos a) + (s * sin a) * (s * sin a)) = sqrt (s * s)"
    by simp
  also have "\<dots> = s"
    using assms by simp
  finally show ?thesis .
qed

lemma polar_norm_neg:
  fixes s a :: real
  assumes "0 \<le> s"
  shows "sqrt ((- s * cos a) * (- s * cos a) + (s * sin a) * (s * sin a)) = s"
  using polar_norm [OF assms, of a] by simp

lemma Speed_Bounce: "Speed (BounceOffPaddle b py h) = Speed b"
proof -
  define s where "s = sqrt (VX b * VX b + VY b * VY b)"
  define a where "a = relativeHit b py h * MaxBounceAngle"
  have s0: "0 \<le> s" by (simp add: s_def)
  have "Speed (BounceOffPaddle b py h) =
        (if VX b > 0 then sqrt ((- s * cos a) * (- s * cos a) + (s * sin a) * (s * sin a))
         else sqrt ((s * cos a) * (s * cos a) + (s * sin a) * (s * sin a)))"
    unfolding Speed_def BounceOffPaddle_def Let_def s_def a_def by simp
  also have "\<dots> = s"
    using polar_norm [OF s0, of a] polar_norm_neg [OF s0, of a] by presburger
  finally show ?thesis by (simp add: Speed_def s_def)
qed

lemma relativeHit_range: "- 1 \<le> relativeHit b py h \<and> relativeHit b py h \<le> 1"
  by (simp add: relativeHit_def Let_def)

lemma Speed_Reset: "Speed (Ball_Reset b cx cy lr r) = InitialBallSpeed"
proof -
  define a where "a = (r - 0.5) * pi / 3"
  have s0: "0 \<le> InitialBallSpeed" by (simp add: InitialBallSpeed_def)
  have "Speed (Ball_Reset b cx cy lr r) =
        (if lr then sqrt ((InitialBallSpeed * cos a) * (InitialBallSpeed * cos a) + (InitialBallSpeed * sin a) * (InitialBallSpeed * sin a))
         else sqrt ((- InitialBallSpeed * cos a) * (- InitialBallSpeed * cos a) + (InitialBallSpeed * sin a) * (InitialBallSpeed * sin a)))"
    unfolding Speed_def Ball_Reset_def Let_def a_def by simp
  also have "\<dots> = InitialBallSpeed"
    using polar_norm [OF s0, of a] polar_norm_neg [OF s0, of a] by presburger
  finally show ?thesis .
qed

lemma Reset_cos_pos:
  assumes "0 \<le> r" "r < 1"
  shows "0 < cos ((r - 0.5) * pi / 3)"
proof -
  have "- (pi / 2) < (r - 0.5) * pi / 3" 
  proof -
    have "- (1/2) * pi \<le> (r - 0.5) * pi" using assms pi_gt_zero by (intro mult_right_mono) auto
    then show ?thesis using pi_gt_zero by linarith
  qed
  moreover have "(r - 0.5) * pi / 3 < pi / 2"
  proof -
    have "(r - 0.5) * pi \<le> (1/2) * pi" using assms pi_gt_zero by (intro mult_right_mono) auto
    then show ?thesis using pi_gt_zero by linarith
  qed
  ultimately show ?thesis by (rule cos_gt_zero_pi)
qed

text \<open>
  C4. For every paddle height \<open>h > 0\<close>, every paddle centre and every ball,
  \<open>BounceOffPaddle\<close> maps the hit offset into \<open>[-1, 1]\<close> and leaves the ball's speed
  \<open>sqrt (VX\<^sup>2 + VY\<^sup>2)\<close> as it was; in exact arithmetic the two speeds are equal.
\<close>

theorem BounceOffPaddle_preserves_speed:
  assumes "0 < h"
  shows "- 1 \<le> relativeHit b paddleY h \<and> relativeHit b paddleY h \<le> 1 \<and>
         Speed (BounceOffPaddle b paddleY h) = Speed b"
  using relativeHit_range [of b paddleY h] Speed_Bounce [of b paddleY h] by simp

theorem BounceOffPaddle_preserves_speed_witness:
  "(0::int) < 6 \<and> Speed (BounceOffPaddle example_ball 7 6) = Speed example_ball \<and>
   Speed example_ball = 0.5"
proof -
  have "Speed example_ball = sqrt (0.5 * 0.5)"
    by (simp add: Speed_def example_ball_def NewBall_def)
  also have "\<dots> = \<bar>0.5\<bar>"
    by (rule real_sqrt_abs2)
  finally show ?thesis
    using BounceOffPaddle_preserves_speed [of 6 example_ball 7] by simp
qed

subsection \<open>Paddle height\<close>

text \<open>
  C7. For all \<open>n \<ge> 1\<close>, \<open>CalculatePaddleHeight\<close> does not grow from \<open>n\<close> to \<open>n + 1\<close>,
  and its result is never below \<open>MinPaddleHeight\<close>.
\<close>

theorem CalculatePaddleHeight_antimono_floor:
  assumes "1 \<le> n"
  shows "CalculatePaddleHeight (n + 1) \<le> CalculatePaddleHeight n \<and>
         MinPaddleHeight \<le> CalculatePaddleHeight n"
  using assms
  by (simp add: CalculatePaddleHeight_def BasePaddleHeight_def MinPaddleHeight_def
      PaddleHeightPerPlayer_def Let_def)

theorem CalculatePaddleHeight_antimono_floor_witness:
  "(1::int) \<le> 2 \<and> CalculatePaddleHeight (2 + 1) = 3 \<and> CalculatePaddleHeight 2 = 4 \<and>
   CalculatePaddleHeight (2 + 1) \<le> CalculatePaddleHeight 2 \<and>
   MinPaddleHeight \<le> CalculatePaddleHeight 2"
  using CalculatePaddleHeight_antimono_floor [of 2]
  by (simp add: CalculatePaddleHeight_def BasePaddleHeight_def MinPaddleHeight_def
      PaddleHeightPerPlayer_def Let_def)

subsection \<open>Team assignment\<close>

lemma length_swap [simp]: "length (swap i j xs) = length xs"
  by (simp add: swap_def)

lemma mset_swap_list:
  "i < length xs \<Longrightarrow> j < length xs \<Longrightarrow> mset (swap i j xs) = mset xs"
  unfolding swap_def by (rule mset_swap)

lemma shuffle_from_perm:
  "i < length xs \<Longrightarrow> mset (shuffle_from rnd i xs) = mset xs"
proof (induction i arbitrary: xs)
  case 0
  then show ?case by simp
next
  case (Suc i)
  let ?j = "rnd (Suc i) mod (Suc i + 1)"
  have j: "?j < length xs"
  proof -
    have "?j < Suc i + 1" by (rule mod_less_divisor) simp
    with Suc.prems show ?thesis by linarith
  qed
  have "mset (shuffle_from rnd i (swap (Suc i) ?j xs)) = mset (swap (Suc i) ?j xs)"
    using Suc.prems by (intro Suc.IH) simp
  also have "\<dots> = mset xs"
    using Suc.prems j by (rule mset_swap_list)
  finally show ?case by simp
qed

lemma Shuffle_perm: "mset (Shuffle rnd xs) = mset xs"
proof (cases xs)
  case Nil
  then show ?thesis by (simp add: Shuffle_def)
next
  case (Cons a list)
  then show ?thesis
    unfolding Shuffle_def by (intro shuffle_from_perm) simp
qed

lemma Shuffle_length [simp]: "length (Shuffle rnd xs) = length xs"
  using mset_eq_length [OF Shuffle_perm] .

lemma Shuffle_indices:
  "set (Shuffle rnd [0..<n]) = {0..<n}" "distinct (Shuffle rnd [0..<n])"
  "length (Shuffle rnd [0..<n]) = n"
proof -
  have m: "mset (Shuffle rnd [0..<n]) = mset [0..<n]" by (rule Shuffle_perm)
  show "set (Shuffle rnd [0..<n]) = {0..<n}"
    using mset_eq_setD [OF m] by simp
  show "distinct (Shuffle rnd [0..<n])"
    using mset_eq_imp_distinct_iff [OF m] by simp
  show "length (Shuffle rnd [0..<n]) = n"
    using mset_eq_length [OF m] by simp
qed

lemma assign_loop_length [simp]:
  "length (assign_loop t h ch cs sp i ks ps) = length ps"
  by (induction ks arbitrary: i ps) (simp_all add: Let_def)

lemma assign_loop_ID [simp]:
  "map Paddle.ID (assign_loop t h ch cs sp i ks ps) = map Paddle.ID ps"
proof (induction ks arbitrary: i ps)
  case Nil
  then show ?case by simp
next
  case (Cons k ks)
  show ?case
    by (simp add: Let_def Cons.IH map_update) (metis list_update_id map_update)
qed

lemma assign_loop_Team:
  assumes "\<forall>k \<in> set ks. k < length ps" and "j < length ps"
  shows "Team (assign_loop t h ch cs sp i ks ps ! j) = (if j \<in> set ks then t else Team (ps ! j))"
  using assms
proof (induction ks arbitrary: i ps)
  case Nil
  then show ?case by simp
next
  case (Cons k ks)
  then show ?case
    by (simp add: Let_def nth_list_update)
qed

lemma count_team_card:
  "count_team ps t = int (card {j. j < length ps \<and> Team (ps ! j) = t})"
proof -
  have "count_team ps t = int (length (filter (\<lambda>p. Team p = t) ps))"
    by (induction ps) simp_all
  then show ?thesis by (simp add: length_filter_conv_card)
qed


lemma assignTeamPaddles_length [simp]:
  "length (Paddles (assignTeamPaddles gs ks t h)) = length (Paddles gs)"
  by (simp add: assignTeamPaddles_def Let_def)

lemma assignTeamPaddles_ID [simp]:
  "map Paddle.ID (Paddles (assignTeamPaddles gs ks t h)) = map Paddle.ID (Paddles gs)"
  by (simp add: assignTeamPaddles_def Let_def)

lemma assignTeamPaddles_Team:
  assumes "\<forall>k \<in> set ks. k < length (Paddles gs)" and "j < length (Paddles gs)"
  shows "Team (Paddles (assignTeamPaddles gs ks t h) ! j) =
           (if j \<in> set ks then t else Team (Paddles gs ! j))"
proof (cases "ks = []")
  case True
  then show ?thesis by (simp add: assignTeamPaddles_def)
next
  case False
  then show ?thesis
    using assign_loop_Team [OF assms] by (simp add: assignTeamPaddles_def Let_def)
qed

lemma assignTeamPaddles_fields [simp]:
  "GameState.Width (assignTeamPaddles gs ks t h) = GameState.Width gs"
  "GameState.Height (assignTeamPaddles gs ks t h) = GameState.Height gs"
  "Ball (assignTeamPaddles gs ks t h) = Ball gs"
  by (simp_all add: assignTeamPaddles_def Let_def)

lemma AssignTeams_fields [simp]:
  "GameState.Width (AssignTeams gs rnd coin r) = GameState.Width gs"
  "GameState.Height (AssignTeams gs rnd coin r) = GameState.Height gs"
  "length (Paddles (AssignTeams gs rnd coin r)) = length (Paddles gs)"
  "map Paddle.ID (Paddles (AssignTeams gs rnd coin r)) = map Paddle.ID (Paddles gs)"
  by (simp_all add: AssignTeams_def Let_def)

text \<open>After the assignment, paddle \<open>j\<close> is on the left exactly when the shuffle put it
  into the first half.\<close>

lemma AssignTeams_Team:
  assumes "j < length (Paddles gs)"
  shows "Team (Paddles (AssignTeams gs rnd coin r) ! j) =
           (if j \<in> set (take (length (Paddles gs) div 2) (Shuffle rnd [0..<length (Paddles gs)]))
            then TeamLeft else TeamRight)"
proof -
  define n where "n = length (Paddles gs)"
  define sh where "sh = Shuffle rnd [0..<n]"
  define l where "l = take (n div 2) sh"
  define rt where "rt = drop (n div 2) sh"
  have n0: "Paddles gs \<noteq> []" using assms by auto
  have sh: "set sh = {0..<n}" "distinct sh" "length sh = n"
    unfolding sh_def by (rule Shuffle_indices)+
  have lr: "set l \<union> set rt = {0..<n}" "set l \<inter> set rt = {}"
  proof -
    have "set l \<union> set rt = set (l @ rt)" by simp
    then show "set l \<union> set rt = {0..<n}" by (simp add: l_def rt_def sh(1))
    have "distinct (l @ rt)" by (simp add: l_def rt_def sh(2))
    then show "set l \<inter> set rt = {}" by simp
  qed
  have lb: "\<forall>k \<in> set l. k < length (Paddles gs)"
    using lr(1) n_def by auto
  have rb: "\<forall>k \<in> set rt. k < length (Paddles (assignTeamPaddles gs l TeamLeft hl))" for hl
    using lr(1) n_def by auto
  have j: "j \<in> set l \<or> j \<in> set rt" "\<not> (j \<in> set l \<and> j \<in> set rt)"
    using lr assms n_def by auto
  have "Paddles (AssignTeams gs rnd coin r) =
        Paddles (assignTeamPaddles
                  (assignTeamPaddles gs l TeamLeft (CalculatePaddleHeight (int (length l))))
                  rt TeamRight (CalculatePaddleHeight (int (length rt))))"
    using n0 by (simp add: AssignTeams_def Let_def l_def rt_def sh_def n_def del: length_take length_drop)
  then have "Team (Paddles (AssignTeams gs rnd coin r) ! j) =
             (if j \<in> set rt then TeamRight else if j \<in> set l then TeamLeft else Team (Paddles gs ! j))"
    using assignTeamPaddles_Team [OF rb, of j _ TeamRight] assignTeamPaddles_Team [OF lb assms, of TeamLeft]
      assms by simp
  then show ?thesis
    using j by (auto simp: l_def sh_def n_def)
qed

lemma AssignTeams_counts:
  "countPlayersOnSide (AssignTeams gs rnd coin r) TeamLeft = int (length (Paddles gs) div 2) \<and>
   countPlayersOnSide (AssignTeams gs rnd coin r) TeamRight
     = int (length (Paddles gs) - length (Paddles gs) div 2)"
proof -
  define n where "n = length (Paddles gs)"
  define sh where "sh = Shuffle rnd [0..<n]"
  let ?ps = "Paddles (AssignTeams gs rnd coin r)"
  have sh: "set sh = {0..<n}" "distinct sh" "length sh = n"
    unfolding sh_def by (rule Shuffle_indices)+
  have len: "length ?ps = n" by (simp add: n_def)
  have team: "Team (?ps ! j) = (if j \<in> set (take (n div 2) sh) then TeamLeft else TeamRight)"
    if "j < n" for j
    using AssignTeams_Team [of j gs rnd coin r] that by (simp add: n_def sh_def)
  have sub: "set (take (n div 2) sh) \<subseteq> {0..<n}" "set (drop (n div 2) sh) \<subseteq> {0..<n}"
    using sh(1) set_take_subset [of "n div 2" sh] set_drop_subset [of "n div 2" sh] by auto
  have split: "set (take (n div 2) sh) \<union> set (drop (n div 2) sh) = {0..<n}"
              "set (take (n div 2) sh) \<inter> set (drop (n div 2) sh) = {}"
  proof -
    have "set (take (n div 2) sh) \<union> set (drop (n div 2) sh) = set (take (n div 2) sh @ drop (n div 2) sh)"
      by (simp only: set_append)
    then show "set (take (n div 2) sh) \<union> set (drop (n div 2) sh) = {0..<n}"
      by (simp add: sh(1))
    have "distinct (take (n div 2) sh @ drop (n div 2) sh)" by (simp add: sh(2))
    then show "set (take (n div 2) sh) \<inter> set (drop (n div 2) sh) = {}"
      by (simp only: distinct_append)
  qed
  have L: "{j. j < n \<and> Team (?ps ! j) = TeamLeft} = set (take (n div 2) sh)"
  proof (rule set_eqI)
    fix j
    show "j \<in> {j. j < n \<and> Team (?ps ! j) = TeamLeft} \<longleftrightarrow> j \<in> set (take (n div 2) sh)"
      using team [of j] sub(1) by (cases "j < n") (auto split: if_splits)
  qed
  have R: "{j. j < n \<and> Team (?ps ! j) = TeamRight} = set (drop (n div 2) sh)"
  proof (rule set_eqI)
    fix j
    show "j \<in> {j. j < n \<and> Team (?ps ! j) = TeamRight} \<longleftrightarrow> j \<in> set (drop (n div 2) sh)"
      using team [of j] sub(2) split by (cases "j < n") (auto split: if_splits)
  qed
  have cl: "card (set (take (n div 2) sh)) = n div 2"
    using distinct_card [OF distinct_take [OF sh(2)], of "n div 2"] sh(3) by simp
  have cr: "card (set (drop (n div 2) sh)) = n - n div 2"
    using distinct_card [OF distinct_drop [OF sh(2)], of "n div 2"] sh(3) by simp
  have c: "countPlayersOnSide (AssignTeams gs rnd coin r) t
          = int (card {j. j < n \<and> Team (?ps ! j) = t})" for t
    unfolding countPlayersOnSide_def count_team_card len ..
  have "countPlayersOnSide (AssignTeams gs rnd coin r) TeamLeft = int (n div 2)"
    using c [of TeamLeft] by (simp only: L cl)
  moreover have "countPlayersOnSide (AssignTeams gs rnd coin r) TeamRight = int (n - n div 2)"
    using c [of TeamRight] by (simp only: R cr)
  ultimately show ?thesis
    unfolding n_def by (rule conjI)
qed

text \<open>
  C6. For every game state with \<open>N \<ge> 2\<close> paddles and every outcome of the shuffle (and
  of the launch), \<open>AssignTeams\<close> keeps the paddles and their owners, puts \<open>N div 2\<close> of them
  on the left team and the others on the right team, so that every paddle is on exactly one
  team and the team sizes differ by at most one.
\<close>

theorem AssignTeams_balanced:
  assumes "2 \<le> length (Paddles gs)"
  shows "length (Paddles (AssignTeams gs rnd coin r)) = length (Paddles gs) \<and>
         map Paddle.ID (Paddles (AssignTeams gs rnd coin r)) = map Paddle.ID (Paddles gs) \<and>
         countPlayersOnSide (AssignTeams gs rnd coin r) TeamLeft
           = int (length (Paddles gs) div 2) \<and>
         countPlayersOnSide (AssignTeams gs rnd coin r) TeamLeft
           + countPlayersOnSide (AssignTeams gs rnd coin r) TeamRight = int (length (Paddles gs)) \<and>
         \<bar>countPlayersOnSide (AssignTeams gs rnd coin r) TeamLeft
           - countPlayersOnSide (AssignTeams gs rnd coin r) TeamRight\<bar> \<le> 1"
proof -
  have "length (Paddles gs) div 2 \<le> length (Paddles gs)" by simp
  moreover have "int (length (Paddles gs) - length (Paddles gs) div 2)
                   - int (length (Paddles gs) div 2) \<le> 1" by linarith
  moreover have "int (length (Paddles gs) div 2)
                   \<le> int (length (Paddles gs) - length (Paddles gs) div 2)" by linarith
  ultimately show ?thesis
    using AssignTeams_counts [of gs rnd coin r] by (simp add: abs_if)
qed

theorem AssignTeams_balanced_witness:
  "2 \<le> length (Paddles example_lobby) \<and>
   countPlayersOnSide example_match TeamLeft = 1 \<and>
   countPlayersOnSide example_match TeamRight = 1"
  using AssignTeams_balanced [of example_lobby "\<lambda>i. i" 0 "0.5"]
  by (simp add: example_lobby_paddles example_match_def)

subsection \<open>Scoring\<close>

text \<open>
  C8. For every game state whose court is 80 wide and whose ball is left of the goal line
  (\<open>x < 0\<close>, for instance \<open>x = -0.5\<close>), \<open>CheckScore\<close> adds exactly one to the right team's
  score, leaves the left team's score, records the right team as the last scorer and starts
  the pause: \<open>Paused\<close> holds and \<open>PauseTicksLeft = TickRate\<close>.
\<close>

theorem CheckScore_left_goal:
  assumes "GameState.Width gs = 80" and "X (Ball gs) < 0"
  shows "RightScore (CheckScore gs) = RightScore gs + 1 \<and>
         LeftScore (CheckScore gs) = LeftScore gs \<and>
         LastScorer (CheckScore gs) = TeamRight \<and>
         Paused (CheckScore gs) \<and> PauseTicksLeft (CheckScore gs) = TickRate"
  using assms by (simp add: CheckScore_def startPause_def Let_def)

theorem CheckScore_left_goal_witness:
  "GameState.Width example_goal = 80 \<and> X (Ball example_goal) = - 0.5 \<and>
   X (Ball example_goal) < 0 \<and>
   RightScore (CheckScore example_goal) = 1 \<and> LeftScore (CheckScore example_goal) = 0 \<and>
   LastScorer (CheckScore example_goal) = TeamRight \<and>
   Paused (CheckScore example_goal) \<and> PauseTicksLeft (CheckScore example_goal) = 60"
proof -
  have w: "GameState.Width example_goal = 80"
    by (simp add: example_goal_def example_match_def example_lobby_size)
  have x: "X (Ball example_goal) = - 0.5"
    by (simp add: example_goal_def NewBall_def)
  have l: "LeftScore example_goal = 0" "RightScore example_goal = 0"
    by (simp_all add: example_goal_def example_match_def AssignTeams_def Let_def
        assignTeamPaddles_def example_lobby_def AddPlayer_def NewGameState_def)
  have x0: "X (Ball example_goal) < 0"
    by (simp add: x)
  show ?thesis
    using CheckScore_left_goal [OF w x0] by (simp add: w x l TickRate_def)
qed

subsection \<open>Serve\<close>

text \<open>\<open>find_paddle\<close> answers with the position of the first paddle that carries the ID, so
  the paddle read at that position exists.\<close>

lemma find_paddle_Some:
  "find_paddle ps pid = Some k \<Longrightarrow>
     k < length ps \<and> Paddle.ID (ps ! k) = pid \<and> (\<forall>j < k. Paddle.ID (ps ! j) \<noteq> pid)"
proof (induction ps arbitrary: k)
  case Nil
  then show ?case by simp
next
  case (Cons p ps)
  show ?case
  proof (cases "Paddle.ID p = pid")
    case True
    with Cons.prems show ?thesis by simp
  next
    case False
    with Cons.prems obtain k' where k': "find_paddle ps pid = Some k'" "k = Suc k'"
      by auto
    from Cons.IH [OF k'(1)] False k'(2) show ?thesis
      by (auto simp: less_Suc_eq_0_disj)
  qed
qed

lemma find_paddle_None:
  "find_paddle ps pid = None \<longleftrightarrow> pid \<notin> Paddle.ID ` set ps"
  by (induction ps) auto

lemma example_waiting_paddles: "Paddles example_waiting = Paddles example_match"
  by (simp add: example_waiting_def)

lemma example_get: "GetPaddle example_waiting 1 = Some 0" "GetPaddle example_waiting 2 = Some 1"
  "GetPaddle example_waiting 3 = None"
  by (simp_all add: GetPaddle_def example_waiting_paddles example_match_paddles NewPaddle_def)

lemma example_may_serve: "may_serve example_waiting 1" "\<not> may_serve example_waiting 2"
  "\<not> may_serve example_waiting 3" "\<not> may_serve example_match 1"
     apply (simp_all add: may_serve_def example_get example_waiting_paddles example_match_paddles NewPaddle_def)
    apply (simp_all add: example_waiting_def)
  apply (simp add: example_match_def AssignTeams_def Let_def
        assignTeamPaddles_def example_lobby_def AddPlayer_def NewGameState_def)
  done

text \<open>
  C3. \<open>Serve\<close> is honoured only while the state waits for a serve and only for a player
  whose paddle is on the serving team (\<open>may_serve\<close>): it returns true exactly then, and in
  every other case it returns false and leaves the whole game state as it was.
\<close>

theorem Serve_only_when_may_serve:
  "(fst (Serve gs playerID r) \<longleftrightarrow> may_serve gs playerID) \<and>
   (\<not> may_serve gs playerID \<longrightarrow> Serve gs playerID r = (False, gs))"
  by (simp add: Serve_def may_serve_def Let_def split: option.splits)

theorem Serve_only_when_may_serve_witness:
  "\<not> may_serve example_waiting 2 \<and> Serve example_waiting 2 0.5 = (False, example_waiting) \<and>
   \<not> may_serve example_waiting 3 \<and> Serve example_waiting 3 0.5 = (False, example_waiting) \<and>
   \<not> may_serve example_match 1 \<and> Serve example_match 1 0.5 = (False, example_match) \<and>
   may_serve example_waiting 1 \<and> fst (Serve example_waiting 1 0.5)"
  using Serve_only_when_may_serve [of example_waiting 2 "0.5"]
    Serve_only_when_may_serve [of example_waiting 3 "0.5"]
    Serve_only_when_may_serve [of example_match 1 "0.5"]
    Serve_only_when_may_serve [of example_waiting 1 "0.5"]
  by (simp add: example_may_serve)

text \<open>
  C10. For every state that waits for a serve, every player on the serving team and every
  value \<open>r\<close> in \<open>[0, 1)\<close> of the random draw, \<open>Serve\<close> returns true, clears
  \<open>WaitingForServe\<close>, puts the ball at the centre of the court with speed exactly
  \<open>InitialBallSpeed\<close>, and launches it away from the serving side: \<open>VX > 0\<close> exactly when
  the left team serves, \<open>VX < 0\<close> exactly when the right team serves.
\<close>

theorem Serve_launches_away:
  assumes "may_serve gs playerID" and "0 \<le> r" and "r < 1"
  shows "fst (Serve gs playerID r) \<and>
         \<not> WaitingForServe (snd (Serve gs playerID r)) \<and>
         X (Ball (snd (Serve gs playerID r))) = real_of_int (GameState.Width gs) / 2 \<and>
         Ball.Y (Ball (snd (Serve gs playerID r))) = real_of_int (GameState.Height gs) / 2 \<and>
         Speed (Ball (snd (Serve gs playerID r))) = InitialBallSpeed \<and>
         (0 < VX (Ball (snd (Serve gs playerID r))) \<longleftrightarrow> ServingTeam gs = TeamLeft) \<and>
         (VX (Ball (snd (Serve gs playerID r))) < 0 \<longleftrightarrow> ServingTeam gs = TeamRight)"
proof -
  let ?b = "Ball_Reset (Ball gs) (real_of_int (GameState.Width gs) / 2)
              (real_of_int (GameState.Height gs) / 2) (ServingTeam gs = TeamLeft) r"
  have s: "Serve gs playerID r = (True, gs\<lparr>Ball := ?b, WaitingForServe := False\<rparr>)"
    using assms(1) by (auto simp: Serve_def may_serve_def Let_def split: option.splits)
  have c: "0 < InitialBallSpeed * cos ((r - 0.5) * pi / 3)"
    using Reset_cos_pos [OF assms(2,3)] by (simp add: InitialBallSpeed_def)
  have vx: "VX ?b = (if ServingTeam gs = TeamLeft then InitialBallSpeed * cos ((r - 0.5) * pi / 3)
                     else - (InitialBallSpeed * cos ((r - 0.5) * pi / 3)))"
    by (simp add: Ball_Reset_def Let_def)
  have t: "ServingTeam gs \<noteq> TeamLeft \<longleftrightarrow> ServingTeam gs = TeamRight"
    by (cases "ServingTeam gs") simp_all
  have pos: "X ?b = real_of_int (GameState.Width gs) / 2"
    "Ball.Y ?b = real_of_int (GameState.Height gs) / 2"
    by (simp_all add: Ball_Reset_def Let_def)
  show ?thesis
    unfolding s using c t pos by (simp add: Speed_Reset vx)
qed

theorem Serve_launches_away_witness:
  "may_serve example_waiting 1 \<and> (0::real) \<le> 0.5 \<and> (0.5::real) < 1 \<and>
   ServingTeam example_waiting = TeamLeft \<and>
   fst (Serve example_waiting 1 0.5) \<and>
   Speed (Ball (snd (Serve example_waiting 1 0.5))) = InitialBallSpeed \<and>
   0 < VX (Ball (snd (Serve example_waiting 1 0.5)))"
proof -
  have t: "ServingTeam example_waiting = TeamLeft"
    by (simp add: example_waiting_def)
  show ?thesis
    using Serve_launches_away [of example_waiting 1 "0.5"]
    by (simp add: example_may_serve t)
qed

subsection \<open>Paddle bounds\<close>

text \<open>
  C9. For every paddle with \<open>0 < Height \<le> CourtHeight\<close> whose centre lies in
  \<open>[Height/2, CourtHeight - Height/2]\<close>, every movement operation of every variant of the
  paddle (both versions of \<open>Move\<close>, \<open>MoveUp\<close>, \<open>MoveDown\<close>, the stepping
  \<open>ProcessInput\<close>, the smoothed \<open>ProcessInput\<close> and \<open>Update\<close>) leaves the centre in that
  interval.
\<close>

theorem paddle_moves_stay_in_bounds:
  assumes "0 < Paddle.Height p" and "Paddle.Height p \<le> CourtHeight p" and "in_bounds p"
  shows "in_bounds (Paddle_Move p) \<and> in_bounds (Paddle_Move_reset p) \<and>
         in_bounds (MoveUp p) \<and> in_bounds (MoveDown p) \<and>
         in_bounds (Paddle_ProcessInput_step p dir) \<and>
         in_bounds (Paddle_Update p) \<and> in_bounds (Paddle_ProcessInput p dir)"
proof -
  have step: "in_bounds (step_by v p)" if "0 \<le> v" for v
    using assms that by (cases "Direction p") (simp_all add: in_bounds_def step_by_def Let_def)
  have 1: "in_bounds (Paddle_Move p)"
    using step [of "1.2"] by (simp add: Paddle_Move_def Let_def in_bounds_def)
  have 2: "in_bounds (Paddle_Move_reset p)"
    using step [of "0.8"] by (simp add: Paddle_Move_reset_def in_bounds_def)
  have 3: "in_bounds (MoveUp p)" "in_bounds (MoveDown p)"
    using assms by (simp_all add: in_bounds_def MoveUp_def MoveDown_def Let_def PaddleMoveAmount_def)
  have 4: "in_bounds (Paddle_ProcessInput_step p dir)"
    using 3 assms(3) by (cases dir) (simp_all add: Paddle_ProcessInput_step_def)
  have 5: "in_bounds (Paddle_Update p)"
    using assms by (simp add: in_bounds_def Paddle_Update_def Let_def)
  have 6: "in_bounds (Paddle_ProcessInput p dir)"
    using assms(3) by (cases dir) (simp_all add: in_bounds_def Paddle_ProcessInput_def Let_def)
  show ?thesis using 1 2 3 4 5 6 by simp
qed

theorem paddle_moves_stay_in_bounds_witness:
  "0 < Paddle.Height example_paddle \<and> Paddle.Height example_paddle \<le> CourtHeight example_paddle \<and>
   in_bounds example_paddle \<and>
   Paddle.Y (MoveUp example_paddle) = 2.5 \<and> in_bounds (MoveUp example_paddle) \<and>
   Paddle.Y (Paddle_Move example_paddle) = 2.5 \<and> in_bounds (Paddle_Move example_paddle) \<and>
   Paddle.Y (Paddle_Update example_paddle) = 2.8 \<and> in_bounds (Paddle_Update example_paddle)"
proof -
  have h: "0 < Paddle.Height example_paddle" "Paddle.Height example_paddle \<le> CourtHeight example_paddle"
    by (simp_all add: example_paddle_def NewPaddle_def)
  have b: "in_bounds example_paddle"
    by (simp add: in_bounds_def example_paddle_def NewPaddle_def)
  have y: "Paddle.Y (MoveUp example_paddle) = 2.5" "Paddle.Y (Paddle_Move example_paddle) = 2.5"
    "Paddle.Y (Paddle_Update example_paddle) = 2.8"
    by (simp_all add: MoveUp_def Paddle_Move_def step_by_def Paddle_Update_def Let_def
        PaddleMoveAmount_def PaddleSmoothSpeed_def example_paddle_def NewPaddle_def)
  show ?thesis
    using paddle_moves_stay_in_bounds [OF h b, of DirUp] by (simp add: h b y)
qed

subsection \<open>The speed cap\<close>

lemma count_team_nonneg: "0 \<le> count_team ps t"
  by (induction ps) simp_all

lemma count_team_map_Team:
  "map Team ps = map Team qs \<Longrightarrow> count_team ps t = count_team qs t"
proof (induction ps arbitrary: qs)
  case Nil
  then show ?case by simp
next
  case (Cons p ps)
  then obtain q qs' where q: "qs = q # qs'" by (cases qs) auto
  with Cons.prems have "Team p = Team q" "map Team ps = map Team qs'" by simp_all
  with Cons.IH [of qs'] q show ?case by simp
qed

lemma larger_team_map_Team:
  "map Team (Paddles gs') = map Team (Paddles gs) \<Longrightarrow> larger_team gs' = larger_team gs"
  using count_team_map_Team [of "Paddles gs'" "Paddles gs"]
  by (simp add: larger_team_def countPlayersOnSide_def)

lemma side_le_larger: "countPlayersOnSide gs t \<le> larger_team gs"
  by (cases t) (simp_all add: larger_team_def)

lemma GetSpeedCap_mono: "a \<le> b \<Longrightarrow> GetSpeedCap a \<le> GetSpeedCap b"
  by (simp add: GetSpeedCap_def SpeedCapPerPlayer_def)

lemma GetSpeedCap_lower:
  assumes "0 \<le> n"
  shows "1.2 \<le> GetSpeedCap n"
proof -
  have r: "0 \<le> real_of_int n" using assms by simp
  have "GetSpeedCap n = 1.5 + (real_of_int n - 1) * 0.3"
    by (simp add: GetSpeedCap_def SpeedCapPerPlayer_def BaseSpeedCap_def)
  with r show ?thesis by argo
qed

lemma larger_team_nonneg: "0 \<le> larger_team gs"
  using count_team_nonneg [of "Paddles gs" TeamLeft]
  by (simp add: larger_team_def countPlayersOnSide_def)

lemma Speed_nonneg: "0 \<le> Speed b"
  by (simp add: Speed_def)

lemma Speed_scaled:
  "Speed (b\<lparr>VX := VX b * k, VY := VY b * k\<rparr>) = \<bar>k\<bar> * Speed b"
proof -
  have "VX b * k * (VX b * k) + VY b * k * (VY b * k) = (k * k) * (VX b * VX b + VY b * VY b)"
    by (simp add: algebra_simps)
  then have "Speed (b\<lparr>VX := VX b * k, VY := VY b * k\<rparr>)
             = sqrt ((k * k) * (VX b * VX b + VY b * VY b))"
    by (simp add: Speed_def)
  also have "\<dots> = sqrt (k * k) * sqrt (VX b * VX b + VY b * VY b)"
    by (rule real_sqrt_mult)
  also have "\<dots> = \<bar>k\<bar> * Speed b"
    by (simp only: real_sqrt_abs2 Speed_def)
  finally show ?thesis .
qed

lemma Speed_hit_paddle:
  "Speed (hit_paddle gs p) \<le> GetSpeedCap (countPlayersOnSide gs (Team p))"
proof -
  define b2 where "b2 = SpeedUp (BounceOffPaddle (Ball gs) (Paddle.Y p) (Paddle.Height p)) SpeedIncrement"
  define cap where "cap = GetSpeedCap (countPlayersOnSide gs (Team p))"
  have cap0: "0 < cap"
    using GetSpeedCap_lower [of "countPlayersOnSide gs (Team p)"] count_team_nonneg [of "Paddles gs" "Team p"]
    by (simp add: cap_def countPlayersOnSide_def)
  have h: "hit_paddle gs p =
           (if Speed b2 > cap then b2\<lparr>VX := VX b2 * (cap / Speed b2), VY := VY b2 * (cap / Speed b2)\<rparr>
            else b2)"
    by (simp add: hit_paddle_def Let_def b2_def cap_def)
  show ?thesis
  proof (cases "Speed b2 > cap")
    case True
    then have pos: "0 < Speed b2" using cap0 by linarith
    have "Speed (hit_paddle gs p) = \<bar>cap / Speed b2\<bar> * Speed b2"
      using True by (simp only: h if_True Speed_scaled)
    also have "\<dots> = (cap / Speed b2) * Speed b2"
      using divide_pos_pos [OF cap0 pos] by (simp only: abs_of_pos)
    also have "\<dots> = cap"
      using pos by simp
    finally show ?thesis by (simp add: cap_def)
  next
    case False
    then show ?thesis by (simp add: h cap_def)
  qed
qed

lemma Speed_collide:
  assumes "Speed (Ball gs) \<le> GetSpeedCap (larger_team gs)"
  shows "Speed (collide gs ps) \<le> GetSpeedCap (larger_team gs)"
proof (induction ps)
  case Nil
  then show ?case using assms by simp
next
  case (Cons p ps)
  have "Speed (hit_paddle gs p) \<le> GetSpeedCap (larger_team gs)"
    using Speed_hit_paddle [of gs p] GetSpeedCap_mono [OF side_le_larger, of gs "Team p"]
    by linarith
  with Cons.IH show ?case by (simp add: Let_def)
qed


lemma Speed_Ball_Move [simp]: "Speed (Ball_Move b) = Speed b"
  by (simp add: Speed_def Ball_Move_def)

lemma wall_bounce_Speed [simp]: "Speed (Ball (wall_bounce gs)) = Speed (Ball gs)"
  by (simp add: wall_bounce_def Let_def Speed_def BounceVertical_def)

lemma wall_bounce_Paddles [simp]: "Paddles (wall_bounce gs) = Paddles gs"
  by (simp add: wall_bounce_def Let_def)

lemma CheckScore_keeps [simp]:
  "Ball (CheckScore gs) = Ball gs" "Paddles (CheckScore gs) = Paddles gs"
  by (simp_all add: CheckScore_def startPause_def Let_def)

lemma checkPaddleCollisions_Paddles [simp]:
  "Paddles (checkPaddleCollisions gs) = Paddles gs"
  by (simp add: checkPaddleCollisions_def)

lemma Paddle_Update_Team [simp]: "Team (Paddle_Update p) = Team p"
  by (simp add: Paddle_Update_def Let_def)

lemma Paddle_ProcessInput_Team [simp]: "Team (Paddle_ProcessInput p dir) = Team p"
  by (cases dir) (simp_all add: Paddle_ProcessInput_def Let_def)

lemma Update_teams: "map Team (Paddles (Update gs)) = map Team (Paddles gs)"
  by (simp add: Update_def Let_def comp_def)

lemma ProcessInput_teams: "map Team (Paddles (ProcessInput gs playerID dir)) = map Team (Paddles gs)"
proof (cases "GetPaddle gs playerID")
  case None
  then show ?thesis by (simp add: ProcessInput_def)
next
  case (Some k)
  have "map Team ((Paddles gs)[k := Paddle_ProcessInput (Paddles gs ! k) dir]) = map Team (Paddles gs)"
    by (simp add: map_update) (metis list_update_id map_update)
  with Some show ?thesis by (simp add: ProcessInput_def)
qed

lemma Serve_teams: "Paddles (snd (Serve gs playerID r)) = Paddles gs"
  by (simp add: Serve_def Let_def split: option.splits)

lemma apply_op_teams: "map Team (Paddles (apply_op gs x)) = map Team (Paddles gs)"
  by (cases x) (simp_all add: Update_teams ProcessInput_teams Serve_teams)

lemma apply_op_larger_team: "larger_team (apply_op gs x) = larger_team gs"
  by (rule larger_team_map_Team) (rule apply_op_teams)

lemma run_larger_team: "larger_team (run gs xs) = larger_team gs"
  by (induction xs arbitrary: gs) (simp_all add: apply_op_larger_team)

lemma cap_ge_initial: "InitialBallSpeed \<le> GetSpeedCap (larger_team gs)"
  using GetSpeedCap_lower [OF larger_team_nonneg, of gs] by (simp add: InitialBallSpeed_def)

lemma cap_ge_zero: "0 \<le> GetSpeedCap (larger_team gs)"
  using GetSpeedCap_lower [OF larger_team_nonneg, of gs] by simp

lemma Update_speed:
  assumes "Speed (Ball gs) \<le> GetSpeedCap (larger_team gs)"
  shows "Speed (Ball (Update gs)) \<le> GetSpeedCap (larger_team gs)"
proof (cases "Paused gs")
  case True
  then show ?thesis
    using assms cap_ge_zero [of gs] by (simp add: Update_def Let_def Speed_def)
next
  case False
  define gs1 where "gs1 = gs\<lparr>Tick := Tick gs + 1, Paddles := map Paddle_Update (Paddles gs)\<rparr>"
  define gs2 where "gs2 = wall_bounce (gs1\<lparr>Ball := Ball_Move (Ball gs1)\<rparr>)"
  have l1: "larger_team gs1 = larger_team gs"
    by (rule larger_team_map_Team) (simp add: gs1_def comp_def)
  have l2: "larger_team gs2 = larger_team gs1"
    by (rule larger_team_map_Team) (simp add: gs2_def)
  have s2: "Speed (Ball gs2) = Speed (Ball gs)"
    by (simp add: gs2_def gs1_def)
  have u: "Update gs = (if WaitingForServe gs then gs1 else CheckScore (checkPaddleCollisions gs2))"
    using False by (simp add: Update_def Let_def gs1_def gs2_def)
  show ?thesis
  proof (cases "WaitingForServe gs")
    case True
    then show ?thesis using assms by (simp add: u gs1_def)
  next
    case False
    have "Speed (collide gs2 (Paddles gs2)) \<le> GetSpeedCap (larger_team gs2)"
      using assms by (intro Speed_collide) (simp add: s2 l2 l1)
    then show ?thesis
      using False by (simp add: u checkPaddleCollisions_def l2 l1)
  qed
qed

lemma apply_op_speed:
  assumes "Speed (Ball gs) \<le> GetSpeedCap (larger_team gs)"
  shows "Speed (Ball (apply_op gs x)) \<le> GetSpeedCap (larger_team gs)"
proof (cases x)
  case OpUpdate
  then show ?thesis using Update_speed [OF assms] by simp
next
  case (OpProcessInput playerID dir)
  then show ?thesis using assms by (simp add: ProcessInput_def split: option.splits)
next
  case (OpServe playerID r)
  then show ?thesis
    using assms cap_ge_initial [of gs]
    by (simp add: Serve_def Let_def Speed_Reset split: option.splits)
qed

lemma run_speed:
  assumes "Speed (Ball gs) \<le> GetSpeedCap (larger_team gs)"
  shows "Speed (Ball (run gs xs)) \<le> GetSpeedCap (larger_team gs)"
  using assms
proof (induction xs arbitrary: gs)
  case Nil
  then show ?case by simp
next
  case (Cons x xs)
  have "Speed (Ball (apply_op gs x)) \<le> GetSpeedCap (larger_team (apply_op gs x))"
    using apply_op_speed [OF Cons.prems] by (simp add: apply_op_larger_team)
  from Cons.IH [OF this] show ?case by (simp add: apply_op_larger_team)
qed

lemma AssignTeams_speed:
  assumes "Paddles gs \<noteq> []"
  shows "Speed (Ball (AssignTeams gs rnd coin r)) = InitialBallSpeed"
  using assms by (simp add: AssignTeams_def Let_def Speed_Reset)

text \<open>
  C2. Start a match with \<open>AssignTeams\<close> on at least two paddles and apply any sequence of
  \<open>Update\<close>, \<open>ProcessInput\<close> and \<open>Serve\<close>. In every state reached, the ball's speed
  \<open>sqrt (VX\<^sup>2 + VY\<^sup>2)\<close> is at most \<open>GetSpeedCap n\<close>, where \<open>n\<close> is the player count
  of the larger team; that count is the same in every state of the match, namely the size of
  the right team.
\<close>

theorem speed_within_cap:
  assumes "2 \<le> length (Paddles gs0)"
  shows "Speed (Ball (run (AssignTeams gs0 rnd coin r) ops))
           \<le> GetSpeedCap (larger_team (AssignTeams gs0 rnd coin r)) \<and>
         larger_team (run (AssignTeams gs0 rnd coin r) ops) = larger_team (AssignTeams gs0 rnd coin r) \<and>
         larger_team (AssignTeams gs0 rnd coin r)
           = int (length (Paddles gs0) - length (Paddles gs0) div 2)"
proof -
  have ne: "Paddles gs0 \<noteq> []" using assms by auto
  have "Speed (Ball (AssignTeams gs0 rnd coin r)) \<le> GetSpeedCap (larger_team (AssignTeams gs0 rnd coin r))"
    using cap_ge_initial by (simp add: AssignTeams_speed [OF ne])
  then have "Speed (Ball (run (AssignTeams gs0 rnd coin r) ops))
           \<le> GetSpeedCap (larger_team (AssignTeams gs0 rnd coin r))"
    by (rule run_speed)
  moreover have "larger_team (AssignTeams gs0 rnd coin r)
           = int (length (Paddles gs0) - length (Paddles gs0) div 2)"
  proof -
    have "int (length (Paddles gs0) div 2)
            \<le> int (length (Paddles gs0) - length (Paddles gs0) div 2)" by linarith
    then show ?thesis
      unfolding larger_team_def using AssignTeams_counts [of gs0 rnd coin r]
      by (simp only: max_absorb2)
  qed
  ultimately show ?thesis by (simp add: run_larger_team)
qed

theorem speed_within_cap_witness:
  "2 \<le> length (Paddles example_lobby) \<and>
   Speed (Ball (run example_match [OpUpdate, OpProcessInput 1 DirUp, OpUpdate, OpServe 2 0.25]))
     \<le> GetSpeedCap 1 \<and>
   GetSpeedCap 1 = BaseSpeedCap"
proof -
  have l: "2 \<le> length (Paddles example_lobby)"
    by (simp add: example_lobby_paddles)
  have n: "larger_team example_match = 1"
    using speed_within_cap [OF l, of "\<lambda>i. i" 0 "0.5" "[]"]
    by (simp add: example_lobby_paddles example_match_def)
  have "Speed (Ball (run example_match [OpUpdate, OpProcessInput 1 DirUp, OpUpdate, OpServe 2 0.25]))
          \<le> GetSpeedCap (larger_team example_match)"
    using speed_within_cap [OF l, of "\<lambda>i. i" 0 "0.5"
        "[OpUpdate, OpProcessInput 1 DirUp, OpUpdate, OpServe 2 0.25]"]
    unfolding example_match_def by (rule conjunct1)
  then show ?thesis
    using l by (simp add: n GetSpeedCap_def)
qed

subsection \<open>Match start: the court\<close>

lemma example_server_eval:
  "example_server =
     \<lparr>cfgPointsToWin = 10,
      clients = [1 \<mapsto> example_client 1 ''Ann'', 2 \<mapsto> example_client 2 ''Bob''],
      nextID = 3, gameState = None, inLobby = True, inRematch = False,
      rematchReady = Map.empty, minWidth = 40, minHeight = 20\<rparr>"
  by (simp add: example_server_def handleConnection_def NewServer_def example_request_def
      example_client_def MinTermWidth_def MinTermHeight_def Let_def)

lemma example_server_clients:
  "clients example_server = [1 \<mapsto> example_client 1 ''Ann'', 2 \<mapsto> example_client 2 ''Bob'']"
  by (simp add: example_server_eval)

lemma example_range:
  "range_clients example_server [1, 2] = [(1, example_client 1 ''Ann''), (2, example_client 2 ''Bob'')]"
  "range_clients example_server [2, 1] = [(2, example_client 2 ''Bob''), (1, example_client 1 ''Ann'')]"
  by (simp_all add: range_clients_def example_server_clients List.map_filter_simps)

lemma example_orders:
  "iteration_order example_server [1, 2]" "iteration_order example_server [2, 1]"
  by (auto simp: iteration_order_def example_server_clients)

lemma example_card: "card (dom (clients example_server)) = 2"
  by (simp add: example_server_clients)

lemma add_players_size [simp]:
  "GameState.Width (add_players cs gs) = GameState.Width gs"
  "GameState.Height (add_players cs gs) = GameState.Height gs"
  by (induction cs gs rule: add_players.induct) (simp_all add: AddPlayer_def Let_def)

lemma add_players_length [simp]:
  "length (Paddles (add_players cs gs)) = length (Paddles gs) + length cs"
  by (induction cs gs rule: add_players.induct) (simp_all add: AddPlayer_def Let_def)

text \<open>The running minimum starts at the smallest terminal the server admits, so terminals
  of admitted clients never lower it.\<close>

lemma min_size_loop_admitted:
  assumes "\<forall>(k, c) \<in> set cs. w \<le> Client.Width c \<and> h \<le> Client.Height c"
  shows "min_size_loop cs (w, h) = (w, h)"
  using assms by (induction cs) auto

lemma min_size_loop_lower:
  "fst (min_size_loop cs (w, h)) \<le> w \<and> snd (min_size_loop cs (w, h)) \<le> h"
proof (induction cs arbitrary: w h)
  case Nil
  then show ?case by simp
next
  case (Cons kc cs)
  obtain k c where kc: "kc = (k, c)" by (cases kc)
  show ?case
    using Cons.IH [of "if Client.Width c < w then Client.Width c else w"
                      "if Client.Height c < h then Client.Height c else h"]
    by (auto simp: kc)
qed

lemma StartGame_court:
  assumes "2 \<le> card (dom (clients s))"
  shows "\<exists>gs. gameState (StartGame s order1 order2 rnd coin r) = Some gs \<and>
              (GameState.Width gs, GameState.Height gs)
                = min_size_loop (range_clients s order1) (MinTermWidth, MinTermHeight)"
proof -
  obtain w h where wh: "min_size_loop (range_clients s order1) (MinTermWidth, MinTermHeight) = (w, h)"
    by (cases "min_size_loop (range_clients s order1) (MinTermWidth, MinTermHeight)")
  show ?thesis
    using assms by (simp add: StartGame_def wh Let_def NewGameState_def)
qed

lemma StartGame_court_at_most_minimum_terminal:
  assumes "2 \<le> card (dom (clients s))"
  shows "\<exists>gs. gameState (StartGame s order1 order2 rnd coin r) = Some gs \<and>
              GameState.Width gs \<le> MinTermWidth \<and> GameState.Height gs \<le> MinTermHeight"
proof -
  from StartGame_court [OF assms, of order1 order2 rnd coin r]
  obtain gs where gs: "gameState (StartGame s order1 order2 rnd coin r) = Some gs"
    "(GameState.Width gs, GameState.Height gs)
       = min_size_loop (range_clients s order1) (MinTermWidth, MinTermHeight)"
    by blast
  have "GameState.Width gs \<le> MinTermWidth \<and> GameState.Height gs \<le> MinTermHeight"
    using min_size_loop_lower [of "range_clients s order1" MinTermWidth MinTermHeight]
    by (simp add: gs(2) [symmetric])
  with gs(1) show ?thesis by blast
qed

lemma admitted_NewServer: "admitted (NewServer p)"
  by (simp add: admitted_def NewServer_def)

lemma admitted_handleConnection:
  "admitted s \<Longrightarrow> admitted (snd (handleConnection s req))"
  by (auto simp: admitted_def handleConnection_def Let_def)

lemma range_clients_set:
  "(k, c) \<in> set (range_clients s order) \<Longrightarrow> clients s k = Some c"
  by (auto simp: range_clients_def List.map_filter_def split: option.splits)

lemma StartGame_court_admitted:
  assumes "admitted s" and "2 \<le> card (dom (clients s))"
  shows "\<exists>gs. gameState (StartGame s order1 order2 rnd coin r) = Some gs \<and>
              GameState.Width gs = MinTermWidth \<and> GameState.Height gs = MinTermHeight"
proof -
  have "\<forall>(k, c) \<in> set (range_clients s order1).
          MinTermWidth \<le> Client.Width c \<and> MinTermHeight \<le> Client.Height c"
    using assms(1) range_clients_set [of _ _ s order1] by (auto simp: admitted_def)
  then have "min_size_loop (range_clients s order1) (MinTermWidth, MinTermHeight)
               = (MinTermWidth, MinTermHeight)"
    by (rule min_size_loop_admitted)
  with StartGame_court [OF assms(2), of order1 order2 rnd coin r] show ?thesis
    by auto
qed

text \<open>
  C1. The claim is that the court of a started match is the component-wise minimum of the
  terminal sizes the joined clients advertised. \<open>StartGame\<close> starts its running minimum at
  \<open>(MinTermWidth, MinTermHeight)\<close>, the smallest terminal that admission lets in, so the
  court of admitted clients is always 40 by 20 (\<open>StartGame_court_admitted\<close>). At the
  example server, whose two clients both advertise 80 by 24, the court is 40 by 20 and not
  80 by 24.
\<close>

theorem StartGame_court_of_80x24_clients:
  "map (\<lambda>(k, c). (Client.Width c, Client.Height c)) (range_clients example_server [1, 2])
     = [(80, 24), (80, 24)] \<and>
   map_option (\<lambda>gs. (GameState.Width gs, GameState.Height gs))
     (gameState (StartGame example_server [1, 2] [1, 2] (\<lambda>i. i) 0 0.5)) = Some (40, 20)"
proof -
  have m: "min_size_loop (range_clients example_server [1, 2]) (MinTermWidth, MinTermHeight) = (40, 20)"
    by (simp add: example_range example_client_def MinTermWidth_def MinTermHeight_def)
  have c: "2 \<le> card (dom (clients example_server))"
    by (simp add: example_card)
  from StartGame_court [OF c, of "[1, 2]" "[1, 2]" "\<lambda>i. i" 0 "0.5"]
  have "map_option (\<lambda>gs. (GameState.Width gs, GameState.Height gs))
     (gameState (StartGame example_server [1, 2] [1, 2] (\<lambda>i. i) 0 0.5)) = Some (40, 20)"
    by (auto simp: m)
  then show ?thesis
    by (simp add: example_range example_client_def)
qed

subsection \<open>Lobby broadcast\<close>

lemma range_clients_map_of:
  "map_of (range_clients s order) k = (if k \<in> set order then clients s k else None)"
  by (induction order)
     (auto simp: range_clients_def List.map_filter_simps split: option.splits)

lemma range_clients_mset:
  assumes "iteration_order s order1" and "iteration_order s order2"
  shows "mset (range_clients s order1) = mset (range_clients s order2)"
proof -
  have "mset order1 = mset order2"
    using assms by (simp add: iteration_order_def set_eq_iff_mset_eq_distinct [symmetric])
  then show ?thesis
    by (simp only: range_clients_def List.map_filter_def mset_map mset_filter)
qed

lemma payload_for_Broadcast:
  assumes "iteration_order s order2"
  shows "payload_for (BroadcastLobbyState s order1 order2 addresses) k =
           map_option
             (\<lambda>client.
                \<lparr>LobbyState.Players = map (\<lambda>(k, c). lobby_player c) (range_clients s order1),
                 IsHost = (Client.ID client = 1),
                 CanStart = (2 \<le> card (dom (clients s))),
                 ServerAddrs = (if Client.ID client = 1 then addresses else []),
                 LobbyState.PointsToWin = cfgPointsToWin s\<rparr>)
             (clients s k)"
proof -
  let ?f = "\<lambda>client.
                \<lparr>LobbyState.Players = map (\<lambda>(k, c). lobby_player c) (range_clients s order1),
                 IsHost = (Client.ID client = 1),
                 CanStart = (2 \<le> card (dom (clients s))),
                 ServerAddrs = (if Client.ID client = 1 then addresses else []),
                 LobbyState.PointsToWin = cfgPointsToWin s\<rparr>"
  have "BroadcastLobbyState s order1 order2 addresses
          = map (\<lambda>(k, client). (k, ?f client)) (range_clients s order2)"
    by (auto simp: BroadcastLobbyState_def Let_def)
  then have "payload_for (BroadcastLobbyState s order1 order2 addresses) k
          = map_option ?f (map_of (range_clients s order2) k)"
    by (simp add: payload_for_def map_of_map)
  also have "map_of (range_clients s order2) k = clients s k"
    using assms by (auto simp: range_clients_map_of iteration_order_def)
  finally show ?thesis .
qed

text \<open>
  C5, as claimed: two calls of \<open>BroadcastLobbyState\<close> on the same roster build identical
  payloads for each client. The player list is built by a loop over a Go map, whose order
  may differ between the two calls: at the example server, visiting the clients as 1, 2 in
  one call and as 2, 1 in the other gives client 1 two payloads with different player lists.
\<close>

theorem BroadcastLobbyState_order_counterexample:
  "iteration_order example_server [1, 2] \<and> iteration_order example_server [2, 1] \<and>
   payload_for (BroadcastLobbyState example_server [1, 2] [1, 2] example_addresses) 1
     \<noteq> payload_for (BroadcastLobbyState example_server [2, 1] [1, 2] example_addresses) 1"
proof -
  have "lobby_player (example_client 1 ''Ann'') \<noteq> lobby_player (example_client 2 ''Bob'')"
    by (simp add: lobby_player_def example_client_def)
  then show ?thesis
    by (simp add: example_orders payload_for_Broadcast example_server_clients example_range)
qed

text \<open>
  C5, amended: two calls of \<open>BroadcastLobbyState\<close> on the same roster, with the same
  address list of the host and whatever orders the map is visited in, build for every
  client payloads with the same \<open>IsHost\<close>, \<open>CanStart\<close>, \<open>ServerAddrs\<close> and \<open>PointsToWin\<close>
  and with player lists that hold the same players, possibly in another order; every
  registered client, and nobody else, gets a payload; and the payloads are identical when
  the loop that builds the player list visits the map in the same order.
\<close>

theorem BroadcastLobbyState_idempotent_up_to_order:
  assumes "iteration_order s order1" and "iteration_order s order2"
    and "iteration_order s order1'" and "iteration_order s order2'"
  shows "rel_option same_up_to_order
           (payload_for (BroadcastLobbyState s order1 order2 addresses) k)
           (payload_for (BroadcastLobbyState s order1' order2' addresses) k) \<and>
         (payload_for (BroadcastLobbyState s order1 order2 addresses) k \<noteq> None
            \<longleftrightarrow> k \<in> dom (clients s)) \<and>
         payload_for (BroadcastLobbyState s order1 order2 addresses) k
           = payload_for (BroadcastLobbyState s order1 order2' addresses) k"
proof -
  have m: "mset (map (\<lambda>(k, c). lobby_player c) (range_clients s order1))
             = mset (map (\<lambda>(k, c). lobby_player c) (range_clients s order1'))"
    using range_clients_mset [OF assms(1) assms(3)] by (simp only: mset_map)
  show ?thesis
    unfolding payload_for_Broadcast [OF assms(2)] payload_for_Broadcast [OF assms(4)]
    using m by (cases "clients s k") (auto simp: same_up_to_order_def)
qed

theorem BroadcastLobbyState_idempotent_up_to_order_witness:
  "iteration_order example_server [1, 2] \<and> iteration_order example_server [2, 1] \<and>
   rel_option same_up_to_order
     (payload_for (BroadcastLobbyState example_server [1, 2] [1, 2] example_addresses) 1)
     (payload_for (BroadcastLobbyState example_server [2, 1] [2, 1] example_addresses) 1) \<and>
   payload_for (BroadcastLobbyState example_server [1, 2] [1, 2] example_addresses) 1 \<noteq> None \<and>
   payload_for (BroadcastLobbyState example_server [1, 2] [1, 2] example_addresses) 1
     = payload_for (BroadcastLobbyState example_server [1, 2] [2, 1] example_addresses) 1"
proof -
  note t = BroadcastLobbyState_idempotent_up_to_order
      [OF example_orders(1) example_orders(1) example_orders(2) example_orders(2),
       of example_addresses 1]
  have d: "1 \<in> dom (clients example_server)"
    by (simp add: example_server_clients)
  from t d example_orders show ?thesis by blast
qed

end
